theory Spec2Isabelle
  imports Complex_Main "HOL-Library.AList"
begin

section \<open>Data model\<close>

text \<open>
  The two programs of the repository, \<^verbatim>\<open>app.py\<close> and \<^verbatim>\<open>streamlit_app.py\<close>, share
  their data: \<^verbatim>\<open>histories\<close> maps a coin identifier to a list of entries
  \<^verbatim>\<open>{"time": datetime, "price": number}\<close>, and a prediction is a dict with the keys
  \<^verbatim>\<open>coin\<close>, \<^verbatim>\<open>projected_gain\<close> and \<^verbatim>\<open>confidence\<close>.

  \<^item> A \<^verbatim>\<open>datetime\<close> is an integer: microseconds since the epoch (the resolution of
    Python's \<^verbatim>\<open>datetime\<close>), so \<^verbatim>\<open>timedelta(minutes=m)\<close> is \<open>m * 60000000\<close>.
  \<^item> A price, a return and a projected gain are the real numbers they denote. The
    confidence is computed from the gain in binary64: each operation is rounded
    to the nearest double (\<open>fl\<close> below), since the value depends on the rounding.
  \<^item> What Python raises is a value \<open>Inl e\<close> of the result.
  \<^item> A \<^verbatim>\<open>dict\<close> is an association list in insertion order, the order in which
    \<^verbatim>\<open>items()\<close> iterates; a key is looked up with \<open>map_of\<close> and written with
    \<open>AList.update\<close>, which overwrites in place or appends a new key at the end,
    as assignment to a Python dict does. The keys of a dict are distinct.
  \<^item> A string is a list of 8-bit characters; the coin identifiers are ASCII.
\<close>

datatype error =
  IndexError | ZeroDivisionError | OverflowError | AttributeError | TypeError | ValueError
  | RequestException | HTTPError | JSONDecodeError

record sample =
  time :: int
  price :: real

type_synonym histories = "(string \<times> sample list) list"

record projection =
  coin :: string
  projected_gain :: real
  confidence :: real

definition timedelta_minutes :: "int \<Rightarrow> int" where
  "timedelta_minutes m = m * 60000000"

section \<open>The history store: \<^verbatim>\<open>update_histories\<close>\<close>

text \<open>
  The same function in both files:
  \<^verbatim>\<open>
  def update_histories(prices, histories):
      now = datetime.utcnow()
      for coin, (price, updated_time) in prices.items():
          entry = {"time": now, "price": price}
          histories.setdefault(coin, []).append(entry)
          if len(histories[coin]) > 60:
              histories[coin] = histories[coin][-60:]
  \<close>
  The clock reading \<open>now\<close> is a parameter; the mutated dict is returned.
\<close>

definition history_of :: "histories \<Rightarrow> string \<Rightarrow> sample list" where
  \<comment> \<open>the list that \<^verbatim>\<open>setdefault(coin, [])\<close> returns\<close>
  "history_of hs c = (case map_of hs c of None \<Rightarrow> [] | Some h \<Rightarrow> h)"

definition last_60 :: "'a list \<Rightarrow> 'a list" where
  \<comment> \<open>the slice \<^verbatim>\<open>[-60:]\<close>\<close>
  "last_60 xs = drop (length xs - 60) xs"

definition append_entry :: "int \<Rightarrow> string \<Rightarrow> real \<Rightarrow> histories \<Rightarrow> histories" where
  \<comment> \<open>the body of the loop\<close>
  "append_entry now c p hs =
     (let entry = \<lparr>time = now, price = p\<rparr>;
          appended = history_of hs c @ [entry];
          hs' = AList.update c appended hs
      in if length appended > 60
         then AList.update c (last_60 appended) hs'
         else hs')"

fun update_histories :: "int \<Rightarrow> (string \<times> real \<times> 'u) list \<Rightarrow> histories \<Rightarrow> histories" where
  "update_histories now [] hs = hs"
| "update_histories now ((c, p, updated_time) # prices) hs =
     update_histories now prices (append_entry now c p hs)"

definition capped :: "histories \<Rightarrow> bool" where
  \<comment> \<open>every history holds at most 60 entries\<close>
  "capped hs = list_all (\<lambda>(c, h). length h \<le> 60) hs"

section \<open>The projection: \<^verbatim>\<open>compute_predictions\<close>\<close>

subsection \<open>Library functions\<close>

definition and_then :: "error + 'a \<Rightarrow> ('a \<Rightarrow> error + 'b) \<Rightarrow> error + 'b" where
  \<comment> \<open>sequencing: an exception of the first statement ends the computation\<close>
  "and_then m f = (case m of Inl e \<Rightarrow> Inl e | Inr x \<Rightarrow> f x)"

definition last_item :: "'a list \<Rightarrow> error + 'a" where
  \<comment> \<open>\<^verbatim>\<open>xs[-1]\<close> and pandas' \<^verbatim>\<open>.iloc[-1]\<close>: IndexError on an empty sequence\<close>
  "last_item xs = (if xs = [] then Inl IndexError else Inr (last xs))"

definition first_item :: "'a list \<Rightarrow> error + 'a" where
  \<comment> \<open>pandas' \<^verbatim>\<open>.iloc[0]\<close>\<close>
  "first_item xs = (case xs of [] \<Rightarrow> Inl IndexError | x # _ \<Rightarrow> Inr x)"

definition truediv :: "real \<Rightarrow> real \<Rightarrow> error + real" where
  \<comment> \<open>Python's \<^verbatim>\<open>/\<close> on numbers\<close>
  "truediv a b = (if b = 0 then Inl ZeroDivisionError else Inr (a / b))"

definition round_half_even :: "real \<Rightarrow> int" where
  "round_half_even x =
     (let f = \<lfloor>x\<rfloor>; d = x - of_int f
      in if d < 1 / 2 then f else if 1 / 2 < d then f + 1 else if even f then f else f + 1)"

text \<open>
  Rounding to binary64, to nearest with ties to even. A positive \<open>x\<close> lies in the
  binade \<open>2 powr e \<le> x < 2 powr (e + 1)\<close>; its doubles are the multiples of
  \<open>2 powr (e - 52)\<close>, and below \<open>2 powr (- 1022)\<close> (the subnormal numbers) the
  multiples of \<open>2 powr (- 1074)\<close>. The range has no upper end here: where a result
  can exceed the largest double, in \<open>exp\<close>, the overflow is written out.
\<close>

definition binade :: "real \<Rightarrow> int" where
  "binade x = max \<lfloor>log 2 x\<rfloor> (- 1022)"

definition ulp :: "real \<Rightarrow> real" where
  "ulp x = 2 powr of_int (binade x - 52)"

definition fl_pos :: "real \<Rightarrow> real" where
  "fl_pos x = of_int (round_half_even (x / ulp x)) * ulp x"

definition fl :: "real \<Rightarrow> real" where
  "fl x = (if x = 0 then 0 else if x < 0 then - fl_pos (- x) else fl_pos x)"

definition DBL_MAX :: real where
  "DBL_MAX = (2 ^ 53 - 1) * 2 ^ 971"

definition math_exp :: "real \<Rightarrow> error + real" where
  \<comment> \<open>\<^verbatim>\<open>math.exp\<close> raises OverflowError ("math range error") when the result
      overflows a double, as the documentation of the \<^verbatim>\<open>math\<close> module says
      of \<^verbatim>\<open>exp(1000.0)\<close>; otherwise the result is taken to be the exponential
      rounded to the nearest double.\<close>
  "math_exp x = (if DBL_MAX < exp x then Inl OverflowError else Inr (fl (exp x)))"

definition np_exp :: "real \<Rightarrow> real option" where
  \<comment> \<open>\<^verbatim>\<open>numpy.exp\<close> never raises: on overflow it warns and returns \<^verbatim>\<open>inf\<close>, which
      is \<open>None\<close> here; otherwise the exponential rounded to the nearest double.\<close>
  "np_exp x = (if DBL_MAX < exp x then None else Some (fl (exp x)))"

definition sort_values :: "sample list \<Rightarrow> sample list" where
  \<comment> \<open>\<^verbatim>\<open>df.sort_values("time")\<close>: the rows in ascending order of time. pandas'
      default sort is not stable, so the source fixes no order among rows of equal
      time; the model keeps their order.\<close>
  "sort_values df = sort_key time df"

subsection \<open>\<^verbatim>\<open>app.py\<close>\<close>

text \<open>
  \<^verbatim>\<open>
  def compute_predictions(histories):
      results = []
      now = datetime.utcnow()
      for coin, history in histories.items():
          if len(history) < 2:
              continue
          current_price = history[-1]["price"]
          def pct_change_over(minutes):
              cutoff = now - timedelta(minutes=minutes)
              old_entry = None
              for entry in history:
                  if entry["time"] <= cutoff:
                      old_entry = entry
                      break
              if not old_entry:
                  return 0.0
              old_price = old_entry["price"]
              return (current_price - old_price) / old_price if old_price > 0 else 0.0
          r1 = pct_change_over(1)
          r5 = pct_change_over(5)
          r15 = pct_change_over(15)
          projected_change = 0.5 * r1 * (30/1) + 0.3 * r5 * (30/5) + 0.2 * r15 * (30/15)
          projected_gain_pct = projected_change * 100.0
          confidence = 1.0 / (1.0 + math.exp(-(projected_gain_pct - 5.0)))
          results.append({"coin": coin, "projected_gain": projected_gain_pct,
                          "confidence": confidence})
      return results
  \<close>
  The clock reading \<open>now\<close> is a parameter. The closure \<^verbatim>\<open>pct_change_over\<close> gets the
  variables it captures (\<open>now\<close>, \<open>history\<close>, \<open>current_price\<close>) as arguments. An entry
  is a non-empty dict, so \<^verbatim>\<open>not old_entry\<close> holds only when the loop found none.
\<close>

definition pct_change_over_app :: "int \<Rightarrow> sample list \<Rightarrow> real \<Rightarrow> int \<Rightarrow> error + real" where
  "pct_change_over_app now history current_price minutes =
     (let cutoff = now - timedelta_minutes minutes in
      case find (\<lambda>entry. time entry \<le> cutoff) history of
        None \<Rightarrow> Inr 0
      | Some old_entry \<Rightarrow>
          (let old_price = price old_entry in
           if old_price > 0 then truediv (current_price - old_price) old_price else Inr 0))"

definition confidence_app :: "real \<Rightarrow> error + real" where
  \<comment> \<open>\<^verbatim>\<open>1.0 / (1.0 + math.exp(-(projected_gain_pct - 5.0)))\<close> in binary64\<close>
  "confidence_app projected_gain_pct =
     and_then (math_exp (- fl (projected_gain_pct - 5))) (\<lambda>ex.
     and_then (truediv 1 (fl (1 + ex))) (\<lambda>q.
       Inr (fl q)))"

definition project_app :: "int \<Rightarrow> string \<Rightarrow> sample list \<Rightarrow> error + projection" where
  \<comment> \<open>the body of the loop, for a history of two entries or more\<close>
  "project_app now c history =
     and_then (last_item history) (\<lambda>current.
       let current_price = price current in
       and_then (pct_change_over_app now history current_price 1) (\<lambda>r1.
       and_then (pct_change_over_app now history current_price 5) (\<lambda>r5.
       and_then (pct_change_over_app now history current_price 15) (\<lambda>r15.
         let projected_change = 0.5 * r1 * (30 / 1) + 0.3 * r5 * (30 / 5) + 0.2 * r15 * (30 / 15);
             projected_gain_pct = projected_change * 100
         in and_then (confidence_app projected_gain_pct) (\<lambda>cf.
              Inr \<lparr>coin = c, projected_gain = projected_gain_pct, confidence = cf\<rparr>)))))"

text \<open>
  The loop over \<^verbatim>\<open>histories.items()\<close>. The dict the caller passed is returned
  beside the outcome, as \<open>update_histories\<close> returns the dict it mutates; which
  objects the function writes to is the subject of the heap model further down.
\<close>

fun predictions_loop_app ::
  "int \<Rightarrow> (string \<times> sample list) list \<Rightarrow> histories \<Rightarrow> projection list
     \<Rightarrow> histories \<times> (error + projection list)" where
  "predictions_loop_app now [] hs results = (hs, Inr results)"
| "predictions_loop_app now ((c, history) # items) hs results =
     (if length history < 2 then predictions_loop_app now items hs results
      else case project_app now c history of
             Inl e \<Rightarrow> (hs, Inl e)
           | Inr r \<Rightarrow> predictions_loop_app now items hs (results @ [r]))"

definition compute_predictions_app :: "int \<Rightarrow> histories \<Rightarrow> histories \<times> (error + projection list)" where
  "compute_predictions_app now hs = predictions_loop_app now hs hs []"

subsection \<open>\<^verbatim>\<open>streamlit_app.py\<close>\<close>

text \<open>
  \<^verbatim>\<open>
  def compute_predictions(histories):
      results = []
      for coin, history in histories.items():
          if len(history) < 2:
              continue
          df = pd.DataFrame(history)
          df = df.sort_values("time")
          df["time_delta"] = (df["time"] - df["time"].iloc[-1]).dt.total_seconds() / 60.0
          current_price = df["price"].iloc[-1]
          def pct_change_over(minutes):
              cutoff_time = df["time"].iloc[-1] - timedelta(minutes=minutes)
              older = df[df["time"] <= cutoff_time]
              if older.empty:
                  return 0.0
              old_price = older["price"].iloc[0]
              return (current_price - old_price) / old_price if old_price > 0 else 0.0
          r1 = pct_change_over(1)
          r5 = pct_change_over(5)
          r15 = pct_change_over(15)
          projected_change = 0.5 * r1 * (30 / 1) + 0.3 * r5 * (30 / 5) + 0.2 * r15 * (30 / 15)
          projected_gain_pct = projected_change * 100.0
          confidence = 1.0 / (1.0 + np.exp(-(projected_gain_pct - 5.0)))
          results.append({"coin": coin, "projected_gain": projected_gain_pct,
                          "confidence": confidence})
      return pd.DataFrame(results)
  \<close>
  A data frame is the list of its rows: \<^verbatim>\<open>pd.DataFrame(history)\<close> copies the entries
  into a new object, and the column \<^verbatim>\<open>time_delta\<close>, added to that copy and never
  read, is left out. The prices of a frame are numpy numbers, whose division warns
  instead of raising.
\<close>

definition pct_change_over_st :: "sample list \<Rightarrow> real \<Rightarrow> int \<Rightarrow> error + real" where
  "pct_change_over_st df current_price minutes =
     and_then (last_item df) (\<lambda>newest.
       let cutoff_time = time newest - timedelta_minutes minutes;
           older = filter (\<lambda>row. time row \<le> cutoff_time) df
       in if older = [] then Inr 0
          else and_then (first_item older) (\<lambda>oldest.
                 let old_price = price oldest in
                 Inr (if old_price > 0 then (current_price - old_price) / old_price else 0)))"

definition confidence_st :: "real \<Rightarrow> real" where
  \<comment> \<open>\<^verbatim>\<open>1.0 / (1.0 + np.exp(-(projected_gain_pct - 5.0)))\<close> in binary64; when
      \<^verbatim>\<open>np.exp\<close> returns \<^verbatim>\<open>inf\<close>, the sum is \<^verbatim>\<open>inf\<close> and the quotient is 0.0\<close>
  "confidence_st projected_gain_pct =
     (case np_exp (- fl (projected_gain_pct - 5)) of
        None \<Rightarrow> 0
      | Some ex \<Rightarrow> fl (1 / fl (1 + ex)))"

definition project_st :: "string \<Rightarrow> sample list \<Rightarrow> error + projection" where
  \<comment> \<open>the body of the loop, for a history of two entries or more\<close>
  "project_st c history =
     (let df = sort_values history in
      and_then (last_item df) (\<lambda>newest.
        let current_price = price newest in
        and_then (pct_change_over_st df current_price 1) (\<lambda>r1.
        and_then (pct_change_over_st df current_price 5) (\<lambda>r5.
        and_then (pct_change_over_st df current_price 15) (\<lambda>r15.
          let projected_change = 0.5 * r1 * (30 / 1) + 0.3 * r5 * (30 / 5) + 0.2 * r15 * (30 / 15);
              projected_gain_pct = projected_change * 100
          in Inr \<lparr>coin = c, projected_gain = projected_gain_pct,
                  confidence = confidence_st projected_gain_pct\<rparr>)))))"

fun predictions_loop_st ::
  "(string \<times> sample list) list \<Rightarrow> histories \<Rightarrow> projection list
     \<Rightarrow> histories \<times> (error + projection list)" where
  "predictions_loop_st [] hs results = (hs, Inr results)"
| "predictions_loop_st ((c, history) # items) hs results =
     (if length history < 2 then predictions_loop_st items hs results
      else case project_st c history of
             Inl e \<Rightarrow> (hs, Inl e)
           | Inr r \<Rightarrow> predictions_loop_st items hs (results @ [r]))"

definition compute_predictions_st :: "histories \<Rightarrow> histories \<times> (error + projection list)" where
  "compute_predictions_st hs = predictions_loop_st hs hs []"

subsection \<open>The projection in the words of the specification\<close>

text \<open>
  The specification's description of one window return, with \<open>now\<close> a parameter:
  scan the history from its first entry and take the first entry whose time is at
  most \<open>now\<close> minus \<open>w\<close> minutes; the return is 0 when there is none or when its
  price is not positive, and the relative change to the price of the last entry
  otherwise. The three returns are combined into the projected gain in percent.
  The specification's confidence is the logistic function of the gain, centred at
  5, over the reals (\<open>logistic\<close>); the programs compute it in binary64
  (\<open>confidence_st\<close>), and that is the confidence of \<open>projection_of\<close>.
\<close>

definition window_return :: "int \<Rightarrow> sample list \<Rightarrow> int \<Rightarrow> real" where
  "window_return now history w =
     (case find (\<lambda>s. time s \<le> now - w * 60000000) history of
        None \<Rightarrow> 0
      | Some old \<Rightarrow>
          if price old > 0 then (price (last history) - price old) / price old else 0)"

definition gain_of :: "real \<Rightarrow> real \<Rightarrow> real \<Rightarrow> real" where
  "gain_of r1 r5 r15 = (0.5 * r1 * 30 + 0.3 * r5 * 6 + 0.2 * r15 * 2) * 100"

definition logistic :: "real \<Rightarrow> real" where
  "logistic g = 1 / (1 + exp (- (g - 5)))"

definition projection_of :: "int \<Rightarrow> string \<Rightarrow> sample list \<Rightarrow> projection" where
  "projection_of now c history =
     (let g = gain_of (window_return now history 1) (window_return now history 5)
                (window_return now history 15)
      in \<lparr>coin = c, projected_gain = g, confidence = confidence_st g\<rparr>)"

definition enough_samples :: "string \<times> sample list \<Rightarrow> bool" where
  "enough_samples item = (2 \<le> length (snd item))"

definition chronological :: "sample list \<Rightarrow> bool" where
  \<comment> \<open>the times strictly increase along the history\<close>
  "chronological history = sorted_wrt (<) (map time history)"

section \<open>The objects \<^verbatim>\<open>compute_predictions\<close> reads and writes\<close>

text \<open>
  The functions above compute with values. Python passes references: the dict
  holds references to list objects, a list holds references to its entry dicts,
  and a statement writes to an object or creates one. Here the heap is the list of
  the objects created so far, an address is an index into it, a new object is
  appended (\<open>alloc\<close>) and a write replaces the object at its address (\<open>store\<close>).

  The statements of \<^verbatim>\<open>compute_predictions\<close> that create or write are
  \<^verbatim>\<open>results = []\<close>, \<^verbatim>\<open>results.append({...})\<close> and, in \<^verbatim>\<open>streamlit_app.py\<close>,
  \<^verbatim>\<open>df = pd.DataFrame(history)\<close> (a new frame holding copies of the values),
  \<^verbatim>\<open>df = df.sort_values("time")\<close> (a new frame), \<^verbatim>\<open>df["time_delta"] = ...\<close> (a write
  to that frame) and \<^verbatim>\<open>pd.DataFrame(results)\<close> (a new frame). Every other statement
  reads, or builds a value no other object refers to (the filtered frame \<^verbatim>\<open>older\<close>,
  a column, a result dict): these are held by value, a result dict in the list that
  owns it.
\<close>

datatype obj =
    Entry sample
  | Refs "nat list"
  | Histories "(string \<times> nat) list"
  | Frame "sample list" "real list option"
  | Results "projection list"

type_synonym heap = "obj list"

definition alloc :: "heap \<Rightarrow> obj \<Rightarrow> nat \<times> heap" where
  "alloc h ob = (length h, h @ [ob])"

definition store :: "heap \<Rightarrow> nat \<Rightarrow> obj \<Rightarrow> heap" where
  "store h a ob = h[a := ob]"

definition deref :: "heap \<Rightarrow> nat \<Rightarrow> obj option" where
  "deref h a = (if a < length h then Some (h ! a) else None)"

fun read_entries :: "heap \<Rightarrow> nat list \<Rightarrow> error + sample list" where
  \<comment> \<open>the entries a list refers to; an object of another kind has no such keys\<close>
  "read_entries h [] = Inr []"
| "read_entries h (a # as) =
     (case deref h a of
        Some (Entry s) \<Rightarrow> and_then (read_entries h as) (\<lambda>ss. Inr (s # ss))
      | _ \<Rightarrow> Inl TypeError)"

definition read_history :: "heap \<Rightarrow> nat \<Rightarrow> error + sample list" where
  "read_history h a =
     (case deref h a of Some (Refs as) \<Rightarrow> read_entries h as | _ \<Rightarrow> Inl TypeError)"

definition append_result :: "heap \<Rightarrow> nat \<Rightarrow> projection \<Rightarrow> error + heap" where
  \<comment> \<open>\<^verbatim>\<open>results.append({...})\<close>\<close>
  "append_result h results r =
     (case deref h results of
        Some (Results rs) \<Rightarrow> Inr (store h results (Results (rs @ [r])))
      | _ \<Rightarrow> Inl AttributeError)"

fun heap_loop_app :: "int \<Rightarrow> (string \<times> nat) list \<Rightarrow> nat \<Rightarrow> heap \<Rightarrow> heap \<times> (error + unit)" where
  "heap_loop_app now [] results h = (h, Inr ())"
| "heap_loop_app now ((c, a) # items) results h =
     (case read_history h a of
        Inl e \<Rightarrow> (h, Inl e)
      | Inr history \<Rightarrow>
          if length history < 2 then heap_loop_app now items results h
          else (case project_app now c history of
                  Inl e \<Rightarrow> (h, Inl e)
                | Inr r \<Rightarrow>
                    (case append_result h results r of
                       Inl e \<Rightarrow> (h, Inl e)
                     | Inr h' \<Rightarrow> heap_loop_app now items results h')))"

definition compute_predictions_app_heap :: "int \<Rightarrow> nat \<Rightarrow> heap \<Rightarrow> heap \<times> (error + nat)" where
  \<comment> \<open>\<open>d\<close> is the address of the dict \<^verbatim>\<open>histories\<close>; the address of \<^verbatim>\<open>results\<close> is returned\<close>
  "compute_predictions_app_heap now d h =
     (case alloc h (Results []) of
        (results, h1) \<Rightarrow>
          (case deref h1 d of
             Some (Histories items) \<Rightarrow>
               (case heap_loop_app now items results h1 of
                  (h2, Inl e) \<Rightarrow> (h2, Inl e)
                | (h2, Inr u) \<Rightarrow> (h2, Inr results))
           | _ \<Rightarrow> (h1, Inl AttributeError)))"

definition time_delta :: "sample list \<Rightarrow> real list" where
  \<comment> \<open>\<^verbatim>\<open>(df["time"] - df["time"].iloc[-1]).dt.total_seconds() / 60.0\<close>\<close>
  "time_delta rows = map (\<lambda>row. real_of_int (time row - time (last rows)) / 60000000) rows"

definition sort_frame :: "heap \<Rightarrow> nat \<Rightarrow> error + nat \<times> heap" where
  \<comment> \<open>\<^verbatim>\<open>df.sort_values("time")\<close>: a new frame\<close>
  "sort_frame h df =
     (case deref h df of
        Some (Frame rows col) \<Rightarrow> Inr (alloc h (Frame (sort_values rows) col))
      | _ \<Rightarrow> Inl AttributeError)"

definition set_time_delta :: "heap \<Rightarrow> nat \<Rightarrow> error + heap" where
  \<comment> \<open>\<^verbatim>\<open>df["time_delta"] = ...\<close>: a write to the frame\<close>
  "set_time_delta h df =
     (case deref h df of
        Some (Frame rows col) \<Rightarrow> Inr (store h df (Frame rows (Some (time_delta rows))))
      | _ \<Rightarrow> Inl TypeError)"

definition project_df :: "string \<Rightarrow> sample list \<Rightarrow> error + projection" where
  \<comment> \<open>the body of the loop of \<^verbatim>\<open>streamlit_app.py\<close> from \<^verbatim>\<open>current_price = ...\<close> on,
      reading the rows of the sorted frame\<close>
  "project_df c df =
     and_then (last_item df) (\<lambda>newest.
       let current_price = price newest in
       and_then (pct_change_over_st df current_price 1) (\<lambda>r1.
       and_then (pct_change_over_st df current_price 5) (\<lambda>r5.
       and_then (pct_change_over_st df current_price 15) (\<lambda>r15.
         let projected_change = 0.5 * r1 * (30 / 1) + 0.3 * r5 * (30 / 5) + 0.2 * r15 * (30 / 15);
             projected_gain_pct = projected_change * 100
         in Inr \<lparr>coin = c, projected_gain = projected_gain_pct,
                 confidence = confidence_st projected_gain_pct\<rparr>))))"

definition heap_project_st :: "string \<Rightarrow> sample list \<Rightarrow> heap \<Rightarrow> heap \<times> (error + projection)" where
  \<comment> \<open>the body of the loop of \<^verbatim>\<open>streamlit_app.py\<close>, for a history of two entries or more\<close>
  "heap_project_st c history h =
     (case alloc h (Frame history None) of
        (df0, h1) \<Rightarrow>
          (case sort_frame h1 df0 of
             Inl e \<Rightarrow> (h1, Inl e)
           | Inr (df, h2) \<Rightarrow>
               (case set_time_delta h2 df of
                  Inl e \<Rightarrow> (h2, Inl e)
                | Inr h3 \<Rightarrow>
                    (case deref h3 df of
                       Some (Frame rows col) \<Rightarrow> (h3, project_df c rows)
                     | _ \<Rightarrow> (h3, Inl TypeError)))))"

fun heap_loop_st :: "(string \<times> nat) list \<Rightarrow> nat \<Rightarrow> heap \<Rightarrow> heap \<times> (error + unit)" where
  "heap_loop_st [] results h = (h, Inr ())"
| "heap_loop_st ((c, a) # items) results h =
     (case read_history h a of
        Inl e \<Rightarrow> (h, Inl e)
      | Inr history \<Rightarrow>
          if length history < 2 then heap_loop_st items results h
          else (case heap_project_st c history h of
                  (h1, Inl e) \<Rightarrow> (h1, Inl e)
                | (h1, Inr r) \<Rightarrow>
                    (case append_result h1 results r of
                       Inl e \<Rightarrow> (h1, Inl e)
                     | Inr h2 \<Rightarrow> heap_loop_st items results h2)))"

definition compute_predictions_st_heap :: "nat \<Rightarrow> heap \<Rightarrow> heap \<times> (error + nat)" where
  \<comment> \<open>the address of the frame \<^verbatim>\<open>pd.DataFrame(results)\<close> is returned\<close>
  "compute_predictions_st_heap d h =
     (case alloc h (Results []) of
        (results, h1) \<Rightarrow>
          (case deref h1 d of
             Some (Histories items) \<Rightarrow>
               (case heap_loop_st items results h1 of
                  (h2, Inl e) \<Rightarrow> (h2, Inl e)
                | (h2, Inr u) \<Rightarrow>
                    (case deref h2 results of
                       Some (Results rs) \<Rightarrow>
                         (case alloc h2 (Results rs) of (out, h3) \<Rightarrow> (h3, Inr out))
                     | _ \<Rightarrow> (h2, Inl TypeError)))
           | _ \<Rightarrow> (h1, Inl AttributeError)))"

definition represents :: "heap \<Rightarrow> nat \<Rightarrow> histories \<Rightarrow> bool" where
  \<comment> \<open>the dict at address \<open>d\<close> denotes \<open>hs\<close>\<close>
  "represents h d hs =
     (case deref h d of
        Some (Histories items) \<Rightarrow>
          list_all2 (\<lambda>item entry. fst item = fst entry \<and> read_history h (snd item) = Inr (snd entry))
            items hs
      | _ \<Rightarrow> False)"

definition read_results :: "heap \<Rightarrow> nat \<Rightarrow> error + projection list" where
  "read_results h a = (case deref h a of Some (Results rs) \<Rightarrow> Inr rs | _ \<Rightarrow> Inl TypeError)"

definition results_of :: "heap \<times> (error + nat) \<Rightarrow> error + projection list" where
  \<comment> \<open>what the caller finds at the address the function returned\<close>
  "results_of run = and_then (snd run) (read_results (fst run))"

section \<open>The quote fetcher: \<^verbatim>\<open>fetch_prices\<close>\<close>

text \<open>
  The same function in both files:
  \<^verbatim>\<open>
  def fetch_prices():
      ...
      try:
          response = requests.get(url, params=params, timeout=10)
          response.raise_for_status()
          data = response.json()
      except Exception:
          return {}
      prices = {}
      for coin in COINS:
          info = data.get(coin)
          if not info:
              continue
          price = info.get("usd")
          updated_at = info.get("last_updated_at")
          if price is None or updated_at is None:
              continue
          prices[coin] = (price, datetime.utcfromtimestamp(updated_at))
      return prices
  \<close>
  The network is the function's input: either \<^verbatim>\<open>requests.get\<close> raises, or it returns
  a response with a status code and a body, which is JSON text or is not. A JSON
  value is what \<^verbatim>\<open>response.json()\<close> returns for it; an object is the list of the
  items of the parsed dict, and \<open>JNull\<close> is \<^verbatim>\<open>None\<close>.
\<close>

datatype json =
  JNull | JBool bool | JNum real | JStr string | JArr "json list" | JObj "(string \<times> json) list"

record response =
  status_code :: nat
  body :: "json option"

definition COINS :: "string list" where
  "COINS = [''bitcoin'', ''ethereum'', ''binancecoin'', ''ripple'', ''cardano'',
            ''solana'', ''dogecoin'', ''tron'', ''polkadot'', ''litecoin'']"

definition raise_for_status :: "response \<Rightarrow> error + unit" where
  \<comment> \<open>HTTPError for a 4xx or 5xx status\<close>
  "raise_for_status r =
     (if 400 \<le> status_code r \<and> status_code r < 600 then Inl HTTPError else Inr ())"

definition response_json :: "response \<Rightarrow> error + json" where
  "response_json r = (case body r of None \<Rightarrow> Inl JSONDecodeError | Some data \<Rightarrow> Inr data)"

fun truthy :: "json \<Rightarrow> bool" where
  \<comment> \<open>the truth value Python gives the parsed value, so that \<^verbatim>\<open>not info\<close> is \<open>\<not> truthy info\<close>\<close>
  "truthy JNull = False"
| "truthy (JBool b) = b"
| "truthy (JNum x) = (x \<noteq> 0)"
| "truthy (JStr s) = (s \<noteq> [])"
| "truthy (JArr xs) = (xs \<noteq> [])"
| "truthy (JObj kvs) = (kvs \<noteq> [])"

fun dict_get :: "json \<Rightarrow> string \<Rightarrow> error + json" where
  \<comment> \<open>\<^verbatim>\<open>x.get(key)\<close>: only a dict has the method; a missing key gives \<^verbatim>\<open>None\<close>\<close>
  "dict_get (JObj kvs) key = Inr (case map_of kvs key of None \<Rightarrow> JNull | Some v \<Rightarrow> v)"
| "dict_get _ key = Inl AttributeError"

fun utcfromtimestamp :: "json \<Rightarrow> error + int" where
  \<comment> \<open>\<^verbatim>\<open>datetime.utcfromtimestamp\<close>: a number of seconds, rounded half-even to
      microseconds, within the years 1 to 9999 (outside them Python raises ValueError,
      or OverflowError far outside; the model does not tell the two apart); a bool
      counts as the integer it is; anything else is a TypeError\<close>
  "utcfromtimestamp (JNum x) =
     (let us = round_half_even (x * 1000000)
      in if - 62135596800000000 \<le> us \<and> us \<le> 253402300799999999 then Inr us
         else Inl ValueError)"
| "utcfromtimestamp (JBool b) = Inr (if b then 1000000 else 0)"
| "utcfromtimestamp _ = Inl TypeError"

definition try_block :: "error + response \<Rightarrow> error + json" where
  \<comment> \<open>the three statements under \<^verbatim>\<open>try\<close>\<close>
  "try_block upstream =
     and_then upstream (\<lambda>r.
     and_then (raise_for_status r) (\<lambda>_.
     response_json r))"

fun fetch_loop ::
  "json \<Rightarrow> string list \<Rightarrow> (string \<times> json \<times> int) list \<Rightarrow> error + (string \<times> json \<times> int) list" where
  "fetch_loop data [] prices = Inr prices"
| "fetch_loop data (c # cs) prices =
     and_then (dict_get data c) (\<lambda>info.
       if \<not> truthy info then fetch_loop data cs prices
       else
         and_then (dict_get info ''usd'') (\<lambda>p.
         and_then (dict_get info ''last_updated_at'') (\<lambda>updated_at.
           if p = JNull \<or> updated_at = JNull then fetch_loop data cs prices
           else
             and_then (utcfromtimestamp updated_at) (\<lambda>t.
               fetch_loop data cs (AList.update c (p, t) prices)))))"

definition fetch_prices :: "error + response \<Rightarrow> error + (string \<times> json \<times> int) list" where
  "fetch_prices upstream =
     (case try_block upstream of
        Inl e \<Rightarrow> Inr []
      | Inr data \<Rightarrow> fetch_loop data COINS [])"

section \<open>The display name: \<^verbatim>\<open>format_coin_name\<close>\<close>

text \<open>
  The same function in both files:
  \<^verbatim>\<open>
  def format_coin_name(coin_id: str) -> str:
      return coin_id.replace("binancecoin", "Binance Coin").replace("ripple", "XRP").title()
  \<close>
  \<^verbatim>\<open>str.replace\<close> replaces the occurrences of \<open>old\<close> from left to right, without
  overlap. \<^verbatim>\<open>str.title\<close> maps a cased character to lower case when the character
  before it is cased, and to upper case otherwise. The cased characters of ASCII
  are the letters; the model leaves every other character as it is.
\<close>

definition is_upper :: "char \<Rightarrow> bool" where
  "is_upper ch = (65 \<le> (of_char ch :: nat) \<and> (of_char ch :: nat) \<le> 90)"

definition is_lower :: "char \<Rightarrow> bool" where
  "is_lower ch = (97 \<le> (of_char ch :: nat) \<and> (of_char ch :: nat) \<le> 122)"

definition is_cased :: "char \<Rightarrow> bool" where
  "is_cased ch = (is_upper ch \<or> is_lower ch)"

definition to_upper :: "char \<Rightarrow> char" where
  "to_upper ch = (if is_lower ch then char_of ((of_char ch :: nat) - 32) else ch)"

definition to_lower :: "char \<Rightarrow> char" where
  "to_lower ch = (if is_upper ch then char_of ((of_char ch :: nat) + 32) else ch)"

function str_replace :: "string \<Rightarrow> string \<Rightarrow> string \<Rightarrow> string" where
  "str_replace old new [] = (if old = [] then new else [])"
| "str_replace old new (ch # s) =
     (if old = [] then new @ ch # str_replace old new s
      else if take (length old) (ch # s) = old
           then new @ str_replace old new (drop (length old) (ch # s))
           else ch # str_replace old new s)"
  by pat_completeness auto
termination
  by (relation "measure (\<lambda>(old, new, s). length s)") auto

fun title_from :: "bool \<Rightarrow> string \<Rightarrow> string" where
  \<comment> \<open>the flag says whether the character before is cased\<close>
  "title_from previous_is_cased [] = []"
| "title_from previous_is_cased (ch # s) =
     (if previous_is_cased then to_lower ch else to_upper ch) # title_from (is_cased ch) s"

definition title :: "string \<Rightarrow> string" where
  "title s = title_from False s"

definition format_coin_name :: "string \<Rightarrow> string" where
  "format_coin_name coin_id =
     title (str_replace ''ripple'' ''XRP'' (str_replace ''binancecoin'' ''Binance Coin'' coin_id))"

section \<open>Properties of the history store\<close>

lemma history_of_append_entry:
  "history_of (append_entry now c p hs) k =
     (if k = c then last_60 (history_of hs c @ [\<lparr>time = now, price = p\<rparr>])
      else history_of hs k)"
  by (simp add: append_entry_def history_of_def Let_def last_60_def AList.update_conv')

lemma list_all_update:
  "list_all P al \<Longrightarrow> P (k, v) \<Longrightarrow> list_all P (AList.update k v al)"
  by (induction al) auto

lemma length_last_60: "length (last_60 xs) = min 60 (length xs)"
  by (simp add: last_60_def)

lemma last_60_last_60_snoc: "last_60 (last_60 xs @ [y]) = last_60 (xs @ [y])"
proof -
  have "length xs - (length xs - 60 + 59) + (length xs - 60) = length xs - 59"
    by arith
  then show ?thesis
    by (simp add: last_60_def)
qed

lemma capped_append_entry: "capped hs \<Longrightarrow> capped (append_entry now c p hs)"
  unfolding capped_def append_entry_def Let_def
  by (auto intro!: list_all_update simp: length_last_60)

lemma capped_update_histories: "capped hs \<Longrightarrow> capped (update_histories now prices hs)"
  by (induction prices arbitrary: hs) (auto simp: capped_append_entry)

lemma history_of_update_histories:
  "distinct (map fst prices) \<Longrightarrow>
   history_of (update_histories now prices hs) k =
     (case map_of prices k of
        None \<Rightarrow> history_of hs k
      | Some (p, u) \<Rightarrow> last_60 (history_of hs k @ [\<lparr>time = now, price = p\<rparr>]))"
proof (induction prices arbitrary: hs)
  case Nil
  then show ?case by simp
next
  case (Cons q prices)
  obtain c p u where q: "q = (c, p, u)" by (cases q)
  have notin: "map_of prices c = None"
    using Cons.prems by (simp add: q map_of_eq_None_iff)
  show ?case
    using Cons.prems notin
    by (auto simp: q Cons.IH history_of_append_entry split: option.splits)
qed

text \<open>
  C4. A call of \<open>update_histories\<close> keeps every history at 60 entries or fewer. The
  history of each coin of \<open>prices\<close> (a dict, so its keys are distinct) becomes the
  last 60 entries of the old history with the new entry appended; when the old
  history has 60 entries, the new one has 60 as well, it is the old one without
  its first entry followed by the new entry, and its first entry is the old second.
\<close>

theorem update_histories_capped:
  "(capped hs \<longrightarrow> capped (update_histories now prices hs)) \<and>
   (distinct (map fst prices) \<longrightarrow>
      (\<forall>c p u. (c, p, u) \<in> set prices \<longrightarrow>
         history_of (update_histories now prices hs) c =
           last_60 (history_of hs c @ [\<lparr>time = now, price = p\<rparr>]) \<and>
         length (history_of (update_histories now prices hs) c) \<le> 60 \<and>
         (length (history_of hs c) = 60 \<longrightarrow>
            length (history_of (update_histories now prices hs) c) = 60 \<and>
            history_of (update_histories now prices hs) c =
              tl (history_of hs c) @ [\<lparr>time = now, price = p\<rparr>] \<and>
            hd (history_of (update_histories now prices hs) c) = history_of hs c ! 1)))"
proof (intro conjI impI allI)
  assume "capped hs"
  then show "capped (update_histories now prices hs)"
    by (rule capped_update_histories)
next
  fix c p u
  assume d: "distinct (map fst prices)" and m: "(c, p, u) \<in> set prices"
  let ?old = "history_of hs c"
  let ?new = "history_of (update_histories now prices hs) c"
  from d m have "map_of prices c = Some (p, u)" by simp
  with d show new: "?new = last_60 (?old @ [\<lparr>time = now, price = p\<rparr>])"
    by (simp add: history_of_update_histories)
  then show "length ?new \<le> 60" by (simp add: length_last_60)
  assume l: "length ?old = 60"
  from new l show "length ?new = 60" by (simp add: length_last_60)
  from new l show t: "?new = tl ?old @ [\<lparr>time = now, price = p\<rparr>]"
    by (cases ?old) (simp_all add: last_60_def)
  from l show "hd ?new = ?old ! 1"
    unfolding t by (cases ?old; cases "tl ?old") auto
qed

theorem update_histories_capped_witness:
  "capped [(''bitcoin'', map (\<lambda>i. \<lparr>time = int i, price = 1\<rparr>) [0..<60])] \<and>
   distinct (map fst [(''bitcoin'', 7::real, ())]) \<and>
   length (history_of [(''bitcoin'', map (\<lambda>i. \<lparr>time = int i, price = 1\<rparr>) [0..<60])] ''bitcoin'') = 60 \<and>
   capped (update_histories 60 [(''bitcoin'', 7, ())]
             [(''bitcoin'', map (\<lambda>i. \<lparr>time = int i, price = 1\<rparr>) [0..<60])]) \<and>
   length (history_of (update_histories 60 [(''bitcoin'', 7, ())]
             [(''bitcoin'', map (\<lambda>i. \<lparr>time = int i, price = 1\<rparr>) [0..<60])]) ''bitcoin'') = 60 \<and>
   hd (history_of (update_histories 60 [(''bitcoin'', 7, ())]
             [(''bitcoin'', map (\<lambda>i. \<lparr>time = int i, price = 1\<rparr>) [0..<60])]) ''bitcoin'')
     = \<lparr>time = 1, price = 1\<rparr>"
proof -
  let ?H = "[(''bitcoin'', map (\<lambda>i. \<lparr>time = int i, price = 1\<rparr>) [0..<60])]"
  let ?P = "[(''bitcoin'', 7::real, ())]"
  have c: "capped ?H" by (simp add: capped_def)
  have d: "distinct (map fst ?P)" by simp
  have m: "(''bitcoin'', 7, ()) \<in> set ?P" by simp
  have h: "history_of ?H ''bitcoin'' = map (\<lambda>i. \<lparr>time = int i, price = 1\<rparr>) [0..<60]"
    by (simp add: history_of_def)
  have l: "length (history_of ?H ''bitcoin'') = 60" by (simp add: h)
  have n: "history_of ?H ''bitcoin'' ! 1 = \<lparr>time = 1, price = 1\<rparr>" by (simp add: h)
  from update_histories_capped [of ?H 60 ?P] c d m l n
  have "capped (update_histories 60 ?P ?H) \<and>
        length (history_of (update_histories 60 ?P ?H) ''bitcoin'') = 60 \<and>
        hd (history_of (update_histories 60 ?P ?H) ''bitcoin'') = \<lparr>time = 1, price = 1\<rparr>"
    by metis
  with c d l show ?thesis by blast
qed

text \<open>
  C8. Two calls of \<open>update_histories\<close> with the same \<open>prices\<close> append two entries to
  the history of each coin of \<open>prices\<close>, one per call, also when both calls read
  the same time: the history is the last 60 entries of the old one followed by
  both entries, so its length grows by 2, up to 60.
\<close>

theorem update_histories_twice:
  "distinct (map fst prices) \<Longrightarrow> (c, p, u) \<in> set prices \<Longrightarrow>
   history_of (update_histories now2 prices (update_histories now1 prices hs)) c =
     last_60 (history_of hs c @ [\<lparr>time = now1, price = p\<rparr>, \<lparr>time = now2, price = p\<rparr>]) \<and>
   length (history_of (update_histories now2 prices (update_histories now1 prices hs)) c) =
     min 60 (length (history_of hs c) + 2)"
proof -
  assume d: "distinct (map fst prices)" and m: "(c, p, u) \<in> set prices"
  from d m have s: "map_of prices c = Some (p, u)" by simp
  have "last_60 (last_60 (history_of hs c @ [\<lparr>time = now1, price = p\<rparr>]) @ [\<lparr>time = now2, price = p\<rparr>])
        = last_60 ((history_of hs c @ [\<lparr>time = now1, price = p\<rparr>]) @ [\<lparr>time = now2, price = p\<rparr>])"
    by (rule last_60_last_60_snoc)
  with d s show ?thesis
    by (simp add: history_of_update_histories length_last_60)
qed

theorem update_histories_twice_witness:
  "distinct (map fst [(''bitcoin'', 7::real, ())]) \<and>
   (''bitcoin'', 7, ()) \<in> set [(''bitcoin'', 7::real, ())] \<and>
   history_of (update_histories 5 [(''bitcoin'', 7, ())]
      (update_histories 5 [(''bitcoin'', 7, ())] [(''bitcoin'', [\<lparr>time = 0, price = 1\<rparr>])])) ''bitcoin''
    = [\<lparr>time = 0, price = 1\<rparr>, \<lparr>time = 5, price = 7\<rparr>, \<lparr>time = 5, price = 7\<rparr>]"
  using update_histories_twice [of "[(''bitcoin'', 7::real, ())]" "''bitcoin''" 7 "()" 5 5
      "[(''bitcoin'', [\<lparr>time = 0, price = 1\<rparr>])]"]
  by (simp add: history_of_def last_60_def)

section \<open>Properties of binary64 rounding\<close>

lemma round_half_even_of_int: "round_half_even (of_int n) = n"
  by (simp add: round_half_even_def)

lemma round_half_even_ge_floor: "\<lfloor>a\<rfloor> \<le> round_half_even a"
  by (simp add: round_half_even_def Let_def)

lemma round_half_even_le_floor1: "round_half_even a \<le> \<lfloor>a\<rfloor> + 1"
  by (simp add: round_half_even_def Let_def)

lemma round_half_even_mono: "a \<le> b \<Longrightarrow> round_half_even a \<le> round_half_even b"
proof -
  assume ab: "a \<le> b"
  then have fa: "\<lfloor>a\<rfloor> \<le> \<lfloor>b\<rfloor>" by (rule floor_mono)
  show ?thesis
  proof (cases "\<lfloor>a\<rfloor> = \<lfloor>b\<rfloor>")
    case True
    with ab show ?thesis by (auto simp: round_half_even_def Let_def)
  next
    case False
    with fa have "\<lfloor>a\<rfloor> + 1 \<le> \<lfloor>b\<rfloor>" by simp
    with round_half_even_le_floor1 [of a] round_half_even_ge_floor [of b]
    show ?thesis by linarith
  qed
qed

lemma ulp_pos: "0 < ulp x"
  by (simp add: ulp_def)

lemma binade_mono: "0 < x \<Longrightarrow> x \<le> y \<Longrightarrow> binade x \<le> binade y"
proof -
  assume "0 < x" "x \<le> y"
  then have "log 2 x \<le> log 2 y" by simp
  then have "\<lfloor>log 2 x\<rfloor> \<le> \<lfloor>log 2 y\<rfloor>" by (rule floor_mono)
  then show ?thesis by (simp add: binade_def)
qed

lemma less_next_binade: "0 < x \<Longrightarrow> x < 2 powr of_int (binade x + 1)"
proof -
  assume x: "0 < x"
  have "\<lfloor>log 2 x\<rfloor> = \<lfloor>log 2 x\<rfloor>" ..
  with x have "x < 2 powr (of_int \<lfloor>log 2 x\<rfloor> + 1)"
    by (simp only: floor_log_eq_powr_iff [of x 2]) simp
  also have "\<dots> \<le> 2 powr of_int (binade x + 1)"
    by (intro powr_mono) (simp_all add: binade_def)
  finally show ?thesis .
qed

lemma binade_le: "0 < x \<Longrightarrow> - 1022 < binade x \<Longrightarrow> 2 powr of_int (binade x) \<le> x"
proof -
  assume x: "0 < x" and n: "- 1022 < binade x"
  then have b: "binade x = \<lfloor>log 2 x\<rfloor>" by (simp add: binade_def max_def split: if_splits)
  have "\<lfloor>log 2 x\<rfloor> = \<lfloor>log 2 x\<rfloor>" ..
  with x have "2 powr of_int \<lfloor>log 2 x\<rfloor> \<le> x"
    by (simp only: floor_log_eq_powr_iff [of x 2])
  with b show ?thesis by simp
qed

lemma ulp_times_53: "2 ^ 53 * ulp x = 2 powr of_int (binade x + 1)"
proof -
  have "2 powr 53 * ulp x = 2 powr (53 + of_int (binade x - 52))"
    unfolding ulp_def by (simp only: powr_add)
  also have "53 + real_of_int (binade x - 52) = of_int (binade x + 1)" by simp
  finally show ?thesis by simp
qed

lemma ulp_times_52: "2 ^ 52 * ulp x = 2 powr of_int (binade x)"
proof -
  have "2 powr 52 * ulp x = 2 powr (52 + of_int (binade x - 52))"
    unfolding ulp_def by (simp only: powr_add)
  also have "52 + real_of_int (binade x - 52) = of_int (binade x)" by simp
  finally show ?thesis by simp
qed

lemma fl_pos_upper: "0 < x \<Longrightarrow> fl_pos x \<le> 2 powr of_int (binade x + 1)"
proof -
  assume x: "0 < x"
  from less_next_binade [OF x] have "x < 2 ^ 53 * ulp x" by (simp only: ulp_times_53)
  then have "x / ulp x < 2 ^ 53" by (simp only: pos_divide_less_eq [OF ulp_pos])
  then have "x / ulp x \<le> of_int (2 ^ 53)" by simp
  then have "round_half_even (x / ulp x) \<le> round_half_even (of_int (2 ^ 53))"
    by (rule round_half_even_mono)
  then have "round_half_even (x / ulp x) \<le> 2 ^ 53"
    by (simp only: round_half_even_of_int)
  then have "real_of_int (round_half_even (x / ulp x)) \<le> of_int (2 ^ 53)"
    by (simp only: of_int_le_iff)
  then have "real_of_int (round_half_even (x / ulp x)) \<le> 2 ^ 53" by simp
  then have "fl_pos x \<le> 2 ^ 53 * ulp x"
    unfolding fl_pos_def using ulp_pos [of x] by (intro mult_right_mono) simp_all
  then show ?thesis by (simp only: ulp_times_53)
qed

lemma fl_pos_lower: "0 < x \<Longrightarrow> - 1022 < binade x \<Longrightarrow> 2 powr of_int (binade x) \<le> fl_pos x"
proof -
  assume x: "0 < x" and n: "- 1022 < binade x"
  from binade_le [OF x n] have "2 ^ 52 * ulp x \<le> x" by (simp only: ulp_times_52)
  then have "2 ^ 52 \<le> x / ulp x" by (simp only: pos_le_divide_eq [OF ulp_pos])
  then have "of_int (2 ^ 52) \<le> x / ulp x" by simp
  then have "round_half_even (of_int (2 ^ 52)) \<le> round_half_even (x / ulp x)"
    by (rule round_half_even_mono)
  then have "2 ^ 52 \<le> round_half_even (x / ulp x)"
    by (simp only: round_half_even_of_int)
  then have "real_of_int (2 ^ 52) \<le> of_int (round_half_even (x / ulp x))"
    by (simp only: of_int_le_iff)
  then have "2 ^ 52 \<le> real_of_int (round_half_even (x / ulp x))" by simp
  then have "2 ^ 52 * ulp x \<le> fl_pos x"
    unfolding fl_pos_def using ulp_pos [of x] by (intro mult_right_mono) simp_all
  then show ?thesis by (simp only: ulp_times_52)
qed

lemma fl_pos_nonneg: "0 < x \<Longrightarrow> 0 \<le> fl_pos x"
proof -
  assume x: "0 < x"
  then have "0 \<le> x / ulp x" using ulp_pos [of x] by simp
  then have "round_half_even (of_int 0) \<le> round_half_even (x / ulp x)"
    by (intro round_half_even_mono) simp
  then have "0 \<le> round_half_even (x / ulp x)" by (simp only: round_half_even_of_int)
  then show ?thesis unfolding fl_pos_def using ulp_pos [of x] by simp
qed

lemma fl_pos_mono: "0 < x \<Longrightarrow> x \<le> y \<Longrightarrow> fl_pos x \<le> fl_pos y"
proof -
  assume x: "0 < x" and xy: "x \<le> y"
  then have y: "0 < y" by simp
  from binade_mono [OF x xy] have b: "binade x \<le> binade y" .
  show ?thesis
  proof (cases "binade x = binade y")
    case True
    then have u: "ulp x = ulp y" by (simp add: ulp_def)
    from xy have "x / ulp y \<le> y / ulp y" using ulp_pos [of y] by (simp add: divide_right_mono)
    then have "round_half_even (x / ulp y) \<le> round_half_even (y / ulp y)"
      by (rule round_half_even_mono)
    then show ?thesis
      unfolding fl_pos_def u using ulp_pos [of y] by (intro mult_right_mono) simp_all
  next
    case False
    with b have lt: "binade x + 1 \<le> binade y" by simp
    have "- 1022 \<le> binade x" by (simp add: binade_def)
    with lt have n: "- 1022 < binade y" by simp
    have "fl_pos x \<le> 2 powr of_int (binade x + 1)" by (rule fl_pos_upper [OF x])
    also have "\<dots> \<le> 2 powr of_int (binade y)"
      using lt by (intro powr_mono) simp_all
    also have "\<dots> \<le> fl_pos y" by (rule fl_pos_lower [OF y n])
    finally show ?thesis .
  qed
qed

lemma fl_mono: "x \<le> y \<Longrightarrow> fl x \<le> fl y"
proof -
  assume xy: "x \<le> y"
  consider "x = 0" | "y = 0" "x < 0" | "0 < x" | "x < 0" "0 < y" | "x < 0" "y < 0"
    using xy by linarith
  then show ?thesis
  proof cases
    case 1
    then show ?thesis using xy fl_pos_nonneg [of y] by (auto simp: fl_def)
  next
    case 2
    then show ?thesis using fl_pos_nonneg [of "- x"] by (simp add: fl_def)
  next
    case 3
    then show ?thesis using xy fl_pos_mono [of x y] by (simp add: fl_def)
  next
    case 4
    then show ?thesis using fl_pos_nonneg [of "- x"] fl_pos_nonneg [of y]
      by (simp add: fl_def)
  next
    case 5
    then show ?thesis using xy fl_pos_mono [of "- y" "- x"] by (simp add: fl_def)
  qed
qed

lemma fl_nonneg: "0 \<le> x \<Longrightarrow> 0 \<le> fl x"
  using fl_pos_nonneg [of x] by (auto simp: fl_def)

lemma binade_eqI:
  "0 < x \<Longrightarrow> 2 powr of_int k \<le> x \<Longrightarrow> x < 2 powr of_int (k + 1) \<Longrightarrow> - 1022 \<le> k \<Longrightarrow>
   binade x = k"
proof -
  assume x: "0 < x" and l: "2 powr of_int k \<le> x" and u: "x < 2 powr of_int (k + 1)"
    and k: "- 1022 \<le> k"
  from floor_log_eq_powr_iff [of x 2 k] x l u have "\<lfloor>log 2 x\<rfloor> = k" by simp
  with k show ?thesis by (simp add: binade_def)
qed

lemma fl_eval:
  "0 < x \<Longrightarrow> 2 powr of_int k \<le> x \<Longrightarrow> x < 2 powr of_int (k + 1) \<Longrightarrow> - 1022 \<le> k \<Longrightarrow>
   fl x = of_int (round_half_even (x / 2 powr of_int (k - 52))) * 2 powr of_int (k - 52)"
proof -
  assume x: "0 < x" and r: "2 powr of_int k \<le> x" "x < 2 powr of_int (k + 1)" "- 1022 \<le> k"
  from binade_eqI [OF x r] have "ulp x = 2 powr of_int (k - 52)" by (simp add: ulp_def)
  with x show ?thesis by (simp add: fl_def fl_pos_def)
qed

lemma fl_exact:
  "0 < x \<Longrightarrow> 2 powr of_int k \<le> x \<Longrightarrow> x < 2 powr of_int (k + 1) \<Longrightarrow> - 1022 \<le> k \<Longrightarrow>
   x / 2 powr of_int (k - 52) = of_int m \<Longrightarrow> fl x = x"
proof -
  assume x: "0 < x" and r: "2 powr of_int k \<le> x" "x < 2 powr of_int (k + 1)" "- 1022 \<le> k"
    and m: "x / 2 powr of_int (k - 52) = of_int m"
  have "fl x = of_int (round_half_even (x / 2 powr of_int (k - 52))) * 2 powr of_int (k - 52)"
    by (rule fl_eval [OF x r])
  also have "\<dots> = x / 2 powr of_int (k - 52) * 2 powr of_int (k - 52)"
    by (simp only: m round_half_even_of_int)
  also have "\<dots> = x" by simp
  finally show ?thesis .
qed


lemma fl_1: "fl 1 = 1"
  by (rule fl_exact [where k = 0 and m = "2 ^ 52"]) (simp_all add: powr_minus_divide)



lemma fl_37: "fl 37 = 37"
  by (rule fl_exact [where k = 5 and m = "37 * 2 ^ 47"]) (simp_all add: powr_minus_divide)

lemma fl_tiny: "fl (1 / 2 ^ 53) = 1 / 2 ^ 53"
proof (rule fl_exact [where k = "- 53" and m = "2 ^ 52"])
  show "(0::real) < 1 / 2 ^ 53" by simp
  show "2 powr real_of_int (- 53) \<le> 1 / 2 ^ 53" by (simp add: powr_minus_divide)
  have "(1 / 2 ^ 53 :: real) < 1 / 2 ^ 52" by simp
  then show "1 / 2 ^ 53 < 2 powr real_of_int (- 53 + 1)" by (simp add: powr_minus_divide)
  show "- 1022 \<le> (- 53 :: int)" by simp
  have "(1 / 2 ^ 53 :: real) * 2 ^ 105 = 2 ^ 52" by simp
  then show "1 / 2 ^ 53 / 2 powr real_of_int (- 53 - 52) = real_of_int (2 ^ 52)"
    by (simp add: powr_minus_divide)
qed

lemma fl_tie: "fl (1 + 1 / 2 ^ 53) = 1"
proof -
  have "fl (1 + 1 / 2 ^ 53)
      = of_int (round_half_even ((1 + 1 / 2 ^ 53) / 2 powr of_int (0 - 52))) * 2 powr of_int (0 - 52)"
    by (rule fl_eval) (simp_all add: powr_minus_divide)
  also have "(1 + 1 / 2 ^ 53) / 2 powr of_int (0 - 52) = (of_int (2 ^ 52) + 1 / 2 :: real)"
    by (simp add: powr_minus_divide)
  also have "round_half_even (of_int (2 ^ 52) + 1 / 2) = 2 ^ 52"
    unfolding round_half_even_def Let_def by (simp only: floor_add_int) simp
  finally show ?thesis by (simp add: powr_minus_divide)
qed

lemma fl_saturates: "0 \<le> t \<Longrightarrow> t \<le> 1 / 2 ^ 53 \<Longrightarrow> fl (1 + t) = 1"
proof -
  assume t: "0 \<le> t" "t \<le> 1 / 2 ^ 53"
  from t(1) have "1 \<le> 1 + t" by simp
  then have a: "fl 1 \<le> fl (1 + t)" by (rule fl_mono)
  from t(2) have "1 + t \<le> 1 + 1 / 2 ^ 53" by (simp only: add_left_mono)
  then have b: "fl (1 + t) \<le> fl (1 + 1 / 2 ^ 53)" by (rule fl_mono)
  from a b show ?thesis unfolding fl_1 fl_tie by (rule order_antisym [rotated])
qed

lemma exp_1_ge: "27 / 10 \<le> exp (1::real)"
proof -
  have "(145 / 128 :: real) = 1 + 1 / 8 + (1 / 8)\<^sup>2 / 2" by (simp add: power2_eq_square)
  also have "\<dots> \<le> exp (1 / 8)" by (rule exp_lower_Taylor_quadratic) simp
  finally have "(145 / 128 :: real) ^ 8 \<le> exp (1 / 8) ^ 8" by (intro power_mono) simp_all
  also have "exp (1 / 8 :: real) ^ 8 = exp (of_nat 8 * (1 / 8))" by (rule exp_of_nat_mult [symmetric])
  also have "\<dots> = exp 1" by simp
  finally have "(145 / 128 :: real) ^ 8 \<le> exp 1" .
  moreover have "(27 / 10 :: real) \<le> (145 / 128) ^ 8" by (simp add: power_divide)
  ultimately show ?thesis by linarith
qed

lemma exp_37_ge: "2 ^ 53 \<le> exp (37::real)"
proof -
  have "(2::real) ^ 53 \<le> (27 / 10) ^ 37" by (simp add: power_divide)
  also have "\<dots> \<le> exp 1 ^ 37" using exp_1_ge by (intro power_mono) simp_all
  also have "exp (1::real) ^ 37 = exp (of_nat 37 * 1)" by (rule exp_of_nat_mult [symmetric])
  also have "\<dots> = exp 37" by simp
  finally show ?thesis .
qed

section \<open>Properties of the projection\<close>

lemma and_then_Inr [simp]: "and_then (Inr x) f = f x"
  by (simp add: and_then_def)

lemma and_then_Inl [simp]: "and_then (Inl e) f = Inl e"
  by (simp add: and_then_def)

lemma pct_change_over_app_eq:
  "pct_change_over_app now history (price (last history)) w = Inr (window_return now history w)"
  by (simp add: pct_change_over_app_def window_return_def timedelta_minutes_def truediv_def
      Let_def split: option.split)

lemma fl_minus: "fl (- x) = - fl x"
  by (simp add: fl_def)


lemma fl_755: "fl 755 = 755"
  by (rule fl_exact [where k = 9 and m = "755 * 2 ^ 43"]) (simp_all add: powr_minus_divide)

lemma fl_one_plus_ge: "0 \<le> e \<Longrightarrow> 1 \<le> fl (1 + e)"
proof -
  assume "0 \<le> e"
  then have "1 \<le> 1 + e" by simp
  then have "fl 1 \<le> fl (1 + e)" by (rule fl_mono)
  then show ?thesis by (simp only: fl_1)
qed

lemma fl_exp_nonneg: "0 \<le> fl (exp x)"
  by (rule fl_nonneg) simp

lemma confidence_st_finite:
  "\<not> DBL_MAX < exp (- fl (g - 5)) \<Longrightarrow>
   confidence_st g = fl (1 / fl (1 + fl (exp (- fl (g - 5)))))"
  by (simp add: confidence_st_def np_exp_def)

lemma confidence_st_overflow: "DBL_MAX < exp (- fl (g - 5)) \<Longrightarrow> confidence_st g = 0"
  by (simp add: confidence_st_def np_exp_def)

lemma confidence_app_eq:
  "confidence_app g =
     (if DBL_MAX < exp (- fl (g - 5)) then Inl OverflowError else Inr (confidence_st g))"
proof (cases "DBL_MAX < exp (- fl (g - 5))")
  case True
  then show ?thesis by (simp add: confidence_app_def math_exp_def)
next
  case False
  from fl_one_plus_ge [OF fl_exp_nonneg, of "- fl (g - 5)"]
  have "fl (1 + fl (exp (- fl (g - 5)))) \<noteq> 0" by linarith
  with False show ?thesis
    by (simp add: confidence_app_def math_exp_def truediv_def confidence_st_finite)
qed

lemma project_app_eq:
  "history \<noteq> [] \<Longrightarrow>
   project_app now c history =
     (if DBL_MAX < exp (- fl (projected_gain (projection_of now c history) - 5))
      then Inl OverflowError else Inr (projection_of now c history))"
  by (simp add: project_app_def last_item_def pct_change_over_app_eq confidence_app_eq
      projection_of_def gain_of_def Let_def)

lemma find_filter_conv:
  "find P xs = (case filter P xs of [] \<Rightarrow> None | x # _ \<Rightarrow> Some x)"
  by (induction xs) auto

lemma pct_change_over_st_eq:
  "df \<noteq> [] \<Longrightarrow>
   pct_change_over_st df (price (last df)) w = Inr (window_return (time (last df)) df w)"
  by (simp add: pct_change_over_st_def window_return_def timedelta_minutes_def last_item_def
      first_item_def find_filter_conv Let_def split: list.split)

lemma sort_values_Nil_iff: "sort_values h = [] \<longleftrightarrow> h = []"
  by (metis length_0_conv length_sort sort_values_def)

lemma project_st_eq:
  "history \<noteq> [] \<Longrightarrow>
   project_st c history =
     Inr (projection_of (time (last (sort_values history))) c (sort_values history))"
  by (simp add: project_st_def last_item_def sort_values_Nil_iff pct_change_over_st_eq
      projection_of_def gain_of_def Let_def)

lemma sort_values_chronological: "chronological h \<Longrightarrow> sort_values h = h"
  unfolding chronological_def sort_values_def
  by (metis sort_key_id_if_sorted strict_sorted_imp_sorted)

lemma predictions_loop_app_fst: "fst (predictions_loop_app now items hs results) = hs"
  by (induction items arbitrary: results) (auto split: sum.splits)

lemma predictions_loop_app_Inr:
  "snd (predictions_loop_app now items hs results) = Inr out \<Longrightarrow>
   out = results @ map (\<lambda>(c, h). projection_of now c h) (filter enough_samples items)"
proof (induction items arbitrary: results)
  case Nil
  then show ?case by simp
next
  case (Cons item items)
  obtain c h where item: "item = (c, h)" by (cases item)
  show ?case
  proof (cases "length h < 2")
    case True
    with Cons show ?thesis by (simp add: item enough_samples_def)
  next
    case False
    then have ne: "h \<noteq> []" by auto
    from False Cons.prems have p: "project_app now c h = Inr (projection_of now c h)"
      by (auto simp: item project_app_eq [OF ne] split: if_splits)
    from False Cons.prems p
    have "snd (predictions_loop_app now items hs (results @ [projection_of now c h])) = Inr out"
      by (simp add: item)
    from Cons.IH [OF this] False show ?thesis
      by (simp add: item enough_samples_def)
  qed
qed

lemma predictions_loop_app_Inl:
  "snd (predictions_loop_app now items hs results) = Inl e \<Longrightarrow> e = OverflowError"
proof (induction items arbitrary: results)
  case Nil
  then show ?case by simp
next
  case (Cons item items)
  obtain c h where item: "item = (c, h)" by (cases item)
  show ?case
  proof (cases "length h < 2")
    case True
    with Cons show ?thesis by (simp add: item)
  next
    case False
    then have ne: "h \<noteq> []" by auto
    from False Cons show ?thesis
      by (auto simp: item project_app_eq [OF ne] split: if_splits)
  qed
qed

lemma predictions_loop_st_eq:
  "predictions_loop_st items hs results =
     (hs, Inr (results @ map (\<lambda>(c, h). projection_of (time (last (sort_values h))) c (sort_values h))
                           (filter enough_samples items)))"
proof (induction items arbitrary: results)
  case Nil
  then show ?case by simp
next
  case (Cons item items)
  obtain c h where item: "item = (c, h)" by (cases item)
  show ?case
  proof (cases "length h < 2")
    case True
    with Cons show ?thesis by (simp add: item enough_samples_def)
  next
    case False
    then have ne: "h \<noteq> []" by auto
    from False Cons show ?thesis
      by (simp add: item enough_samples_def project_st_eq [OF ne])
  qed
qed

lemma DBL_MAX_less: "DBL_MAX < 2 ^ 1024"
proof -
  have "DBL_MAX < 2 ^ 53 * 2 ^ 971"
    unfolding DBL_MAX_def by (rule mult_strict_right_mono) simp_all
  also have "(2::real) ^ 53 * 2 ^ 971 = 2 ^ 1024"
    by (simp add: power_add [symmetric])
  finally show ?thesis .
qed

lemma DBL_MAX_ge_one: "1 \<le> DBL_MAX"
proof -
  have "(1::real) * 1 \<le> (2 ^ 53 - 1) * 2 ^ 971"
    by (rule mult_mono) simp_all
  then show ?thesis by (simp add: DBL_MAX_def)
qed

lemma exp_nonpos_fits: "x \<le> 0 \<Longrightarrow> \<not> DBL_MAX < exp x"
proof -
  assume "x \<le> 0"
  then have "exp x \<le> 1" by simp
  with DBL_MAX_ge_one show ?thesis by linarith
qed

lemma exp_755_overflows: "DBL_MAX < exp (755::real)"
proof -
  have "(2::real) < 1 + 755 / 1024 + (755 / 1024)\<^sup>2 / 2"
    by (simp add: power2_eq_square)
  also have "\<dots> \<le> exp (755 / 1024)"
    by (rule exp_lower_Taylor_quadratic) simp
  finally have "(2::real) < exp (755 / 1024)" .
  then have "(2::real) ^ 1024 < exp (755 / 1024) ^ 1024"
    by (intro power_strict_mono) simp_all
  also have "exp (755 / 1024 :: real) ^ 1024 = exp (of_nat 1024 * (755 / 1024))"
    by (rule exp_of_nat_mult [symmetric])
  also have "\<dots> = exp 755" by simp
  finally show ?thesis using DBL_MAX_less by linarith
qed

lemma compute_predictions_app_Inr:
  "snd (compute_predictions_app now hs) = Inr out \<Longrightarrow>
   out = map (\<lambda>(c, h). projection_of now c h) (filter enough_samples hs)"
  unfolding compute_predictions_app_def by (drule predictions_loop_app_Inr) simp

lemma compute_predictions_st_eq:
  "compute_predictions_st hs =
     (hs, Inr (map (\<lambda>(c, h). projection_of (time (last (sort_values h))) c (sort_values h))
                   (filter enough_samples hs)))"
  by (simp add: compute_predictions_st_def predictions_loop_st_eq)


lemma exp_minus_37_le: "exp (- 37 :: real) \<le> 1 / 2 ^ 53"
proof -
  have "exp (- 37 :: real) = 1 / exp 37" by (simp add: exp_minus field_simps)
  also have "\<dots> \<le> 1 / 2 ^ 53" using exp_37_ge by (intro divide_left_mono) simp_all
  finally show ?thesis .
qed

lemma confidence_st_saturates: "42 \<le> g \<Longrightarrow> confidence_st g = 1"
proof -
  assume "42 \<le> g"
  then have "37 \<le> g - 5" by simp
  then have "fl 37 \<le> fl (g - 5)" by (rule fl_mono)
  then have a: "- fl (g - 5) \<le> - 37" by (simp add: fl_37)
  then have "exp (- fl (g - 5)) \<le> exp (- 37)" by simp
  with exp_minus_37_le have e: "exp (- fl (g - 5)) \<le> 1 / 2 ^ 53" by linarith
  from a have fits: "\<not> DBL_MAX < exp (- fl (g - 5))" by (intro exp_nonpos_fits) simp
  from e have "fl (exp (- fl (g - 5))) \<le> fl (1 / 2 ^ 53)" by (rule fl_mono)
  then have "fl (exp (- fl (g - 5))) \<le> 1 / 2 ^ 53" by (simp only: fl_tiny)
  with fl_exp_nonneg have "fl (1 + fl (exp (- fl (g - 5)))) = 1" by (rule fl_saturates)
  with fits show ?thesis by (simp add: confidence_st_finite fl_1)
qed







lemma logistic_pos: "0 < logistic g"
  by (simp add: logistic_def add_pos_pos)

lemma logistic_less_one: "logistic g < 1"
  by (simp add: logistic_def add_pos_pos)

lemma logistic_strict_mono: "g1 < g2 \<Longrightarrow> logistic g1 < logistic g2"
  unfolding logistic_def
  by (rule divide_strict_left_mono) (simp_all add: add_pos_pos)

lemma logistic_half_iff: "logistic g = 1 / 2 \<longleftrightarrow> g = 5"
proof -
  have pos: "0 < 1 + exp (- (g - 5))" by (simp add: add_pos_pos)
  have "logistic g = 1 / 2 \<longleftrightarrow> 1 / (1 + exp (- (g - 5))) = 1 / 2"
    by (simp only: logistic_def)
  also have "\<dots> \<longleftrightarrow> 1 + exp (- (g - 5)) = 2"
    using pos by (auto simp: divide_eq_eq eq_divide_eq)
  also have "\<dots> \<longleftrightarrow> exp (- (g - 5)) = 1" by auto
  also have "\<dots> \<longleftrightarrow> g = 5" by simp
  finally show ?thesis .
qed

lemma example_projection:
  "projection_of (t0 + 120000000) k [\<lparr>time = t0, price = 100\<rparr>, \<lparr>time = t0 + 120000000, price = 105\<rparr>] = \<lparr>coin = k, projected_gain = 75, confidence = 1\<rparr>"
proof -
  have "confidence_st 75 = 1" by (rule confidence_st_saturates) simp
  then show ?thesis by (simp add: projection_of_def window_return_def gain_of_def)
qed

lemma example_app:
  "snd (compute_predictions_app (t0 + 120000000) [(k, [\<lparr>time = t0, price = 100\<rparr>, \<lparr>time = t0 + 120000000, price = 105\<rparr>])])
     = Inr [\<lparr>coin = k, projected_gain = 75, confidence = 1\<rparr>]"
proof -
  have ne: "[\<lparr>time = t0, price = 100\<rparr>, \<lparr>time = t0 + 120000000, price = 105\<rparr>] \<noteq> []" by simp
  have fits: "\<not> DBL_MAX < exp (- fl (75 - 5))"
    by (intro exp_nonpos_fits) (simp add: fl_nonneg)
  have "project_app (t0 + 120000000) k [\<lparr>time = t0, price = 100\<rparr>, \<lparr>time = t0 + 120000000, price = 105\<rparr>]
          = Inr \<lparr>coin = k, projected_gain = 75, confidence = 1\<rparr>"
    using fits by (simp only: project_app_eq [OF ne] example_projection projection.simps if_False)
  then show ?thesis by (simp add: compute_predictions_app_def)
qed

lemma example_st:
  "snd (compute_predictions_st [(k, [\<lparr>time = t0, price = 100\<rparr>, \<lparr>time = t0 + 120000000, price = 105\<rparr>])])
     = Inr [\<lparr>coin = k, projected_gain = 75, confidence = 1\<rparr>]"
proof -
  have ne: "[\<lparr>time = t0, price = 100\<rparr>, \<lparr>time = t0 + 120000000, price = 105\<rparr>] \<noteq> []" by simp
  have sv: "sort_values [\<lparr>time = t0, price = 100\<rparr>, \<lparr>time = t0 + 120000000, price = 105\<rparr>] = [\<lparr>time = t0, price = 100\<rparr>, \<lparr>time = t0 + 120000000, price = 105\<rparr>]" by (simp add: sort_values_def)
  have l: "last [\<lparr>time = t0, price = 100\<rparr>, \<lparr>time = t0 + 120000000, price = 105\<rparr>] = \<lparr>time = t0 + 120000000, price = 105\<rparr>" by simp
  have "project_st k [\<lparr>time = t0, price = 100\<rparr>, \<lparr>time = t0 + 120000000, price = 105\<rparr>] = Inr \<lparr>coin = k, projected_gain = 75, confidence = 1\<rparr>"
    by (simp only: project_st_eq [OF ne] sv l sample.simps example_projection)
  then show ?thesis by (simp add: compute_predictions_st_def)
qed




text \<open>
  C1, as amended. Each window return is the specification's \<open>window_return\<close>: the scan
  runs from the oldest entry, the first entry at or before the cutoff is the old
  sample, the return is 0 when there is none or when its price is not positive,
  and the relative change to the current price otherwise. In \<^verbatim>\<open>streamlit_app.py\<close>,
  for a history of two entries or more whose times strictly increase, \<open>now\<close> is the
  time of the most recent entry. In \<^verbatim>\<open>app.py\<close>, \<open>now\<close> is the clock reading of the
  call. The statement holds for every window \<open>w\<close>, so for 1, 5 and 15.
\<close>

theorem window_return_refines:
  "(2 \<le> length history \<and> chronological history \<longrightarrow>
      pct_change_over_st (sort_values history) (price (last (sort_values history))) w
        = Inr (window_return (time (last history)) history w)) \<and>
   pct_change_over_app now history (price (last history)) w
        = Inr (window_return now history w)"
proof (intro conjI impI)
  assume a: "2 \<le> length history \<and> chronological history"
  then have ne: "history \<noteq> []" by auto
  from a have "sort_values history = history" by (simp add: sort_values_chronological)
  with ne show "pct_change_over_st (sort_values history) (price (last (sort_values history))) w
        = Inr (window_return (time (last history)) history w)"
    by (simp add: pct_change_over_st_eq)
next
  show "pct_change_over_app now history (price (last history)) w
        = Inr (window_return now history w)"
    by (rule pct_change_over_app_eq)
qed

theorem window_return_refines_witness:
  "2 \<le> length [\<lparr>time = 0, price = 100\<rparr>, \<lparr>time = 120000000, price = 105\<rparr>] \<and>
   chronological [\<lparr>time = 0, price = 100\<rparr>, \<lparr>time = 120000000, price = 105\<rparr>] \<and>
   pct_change_over_st (sort_values [\<lparr>time = 0, price = 100\<rparr>, \<lparr>time = 120000000, price = 105\<rparr>])
     (price (last (sort_values [\<lparr>time = 0, price = 100\<rparr>, \<lparr>time = 120000000, price = 105\<rparr>]))) 1
     = Inr (1 / 20) \<and>
   pct_change_over_app 120000000 [\<lparr>time = 0, price = 100\<rparr>, \<lparr>time = 120000000, price = 105\<rparr>]
     (price (last [\<lparr>time = 0, price = 100\<rparr>, \<lparr>time = 120000000, price = 105\<rparr>])) 1
     = Inr (1 / 20)"
proof -
  let ?H = "[\<lparr>time = 0, price = 100\<rparr>, \<lparr>time = 120000000, price = 105\<rparr>]"
  have l: "2 \<le> length ?H" by simp
  have ch: "chronological ?H" by (simp add: chronological_def)
  have wr: "window_return (time (last ?H)) ?H 1 = 1 / 20"
    and wr': "window_return 120000000 ?H 1 = 1 / 20"
    by (simp_all add: window_return_def)
  from window_return_refines [of ?H 1 120000000] l ch
  have "pct_change_over_st (sort_values ?H) (price (last (sort_values ?H))) 1
          = Inr (window_return (time (last ?H)) ?H 1)"
    and "pct_change_over_app 120000000 ?H (price (last ?H)) 1 = Inr (window_return 120000000 ?H 1)"
    by blast+
  then have "pct_change_over_st (sort_values ?H) (price (last (sort_values ?H))) 1 = Inr (1 / 20)"
    and "pct_change_over_app 120000000 ?H (price (last ?H)) 1 = Inr (1 / 20)"
    by (simp_all only: wr wr')
  with l ch show ?thesis by blast
qed

text \<open>
  The claim as stated fails for \<^verbatim>\<open>app.py\<close>: with the entries 100 at time 0 and 105 two
  minutes later, a call ten minutes after the first entry finds it for the
  5-minute window, where the time of the most recent entry as \<open>now\<close> finds none.
\<close>

theorem window_return_clock_counterexample:
  "pct_change_over_app 600000000 [\<lparr>time = 0, price = 100\<rparr>, \<lparr>time = 120000000, price = 105\<rparr>]
     (price (last [\<lparr>time = 0, price = 100\<rparr>, \<lparr>time = 120000000, price = 105\<rparr>])) 5
   \<noteq> Inr (window_return (time (last [\<lparr>time = 0, price = 100\<rparr>, \<lparr>time = 120000000, price = 105\<rparr>]))
            [\<lparr>time = 0, price = 100\<rparr>, \<lparr>time = 120000000, price = 105\<rparr>] 5)"
  by (simp add: pct_change_over_app_def window_return_def timedelta_minutes_def truediv_def)

text \<open>
  C2. What \<^verbatim>\<open>compute_predictions\<close> returns is, for each history of two entries or
  more and in the order of the dict, the projection whose gain is
  \<open>(0.5 * r1 * (30/1) + 0.3 * r5 * (30/5) + 0.2 * r15 * (30/15)) * 100\<close> for the three
  window returns, which is the specification's \<open>(0.5 * r1 * 30 + 0.3 * r5 * 6 + 0.2 * r15 * 2) * 100\<close>.
  For the entries 100 at \<open>t0\<close> and 105 two minutes later, read at the time of the
  second, the returns are 0.05, 0 and 0 and the gain is 75 in both programs.
\<close>

theorem projected_gain_formula:
  "(\<forall>results. snd (compute_predictions_app now hs) = Inr results \<longrightarrow>
       results = map (\<lambda>(c, h). projection_of now c h) (filter enough_samples hs)) \<and>
   snd (compute_predictions_st hs) =
     Inr (map (\<lambda>(c, h). projection_of (time (last (sort_values h))) c (sort_values h))
              (filter enough_samples hs)) \<and>
   projected_gain (projection_of now c h) =
     (0.5 * window_return now h 1 * (30 / 1) + 0.3 * window_return now h 5 * (30 / 5)
        + 0.2 * window_return now h 15 * (30 / 15)) * 100 \<and>
   window_return (t0 + 120000000)
     [\<lparr>time = t0, price = 100\<rparr>, \<lparr>time = t0 + 120000000, price = 105\<rparr>] 1 = 0.05 \<and>
   window_return (t0 + 120000000)
     [\<lparr>time = t0, price = 100\<rparr>, \<lparr>time = t0 + 120000000, price = 105\<rparr>] 5 = 0 \<and>
   window_return (t0 + 120000000)
     [\<lparr>time = t0, price = 100\<rparr>, \<lparr>time = t0 + 120000000, price = 105\<rparr>] 15 = 0 \<and>
   snd (compute_predictions_app (t0 + 120000000)
          [(k, [\<lparr>time = t0, price = 100\<rparr>, \<lparr>time = t0 + 120000000, price = 105\<rparr>])])
     = Inr [\<lparr>coin = k, projected_gain = 75, confidence = 1\<rparr>] \<and>
   snd (compute_predictions_st
          [(k, [\<lparr>time = t0, price = 100\<rparr>, \<lparr>time = t0 + 120000000, price = 105\<rparr>])])
     = Inr [\<lparr>coin = k, projected_gain = 75, confidence = 1\<rparr>]"
proof -
  let ?H = "[\<lparr>time = t0, price = 100\<rparr>, \<lparr>time = t0 + 120000000, price = 105\<rparr>]"
  let ?now = "t0 + 120000000"
  have w1: "window_return ?now ?H 1 = 0.05"
    and w5: "window_return ?now ?H 5 = 0"
    and w15: "window_return ?now ?H 15 = 0"
    by (simp_all add: window_return_def)
  have 1: "\<forall>results. snd (compute_predictions_app now hs) = Inr results \<longrightarrow>
       results = map (\<lambda>(c, h). projection_of now c h) (filter enough_samples hs)"
    by (blast dest: compute_predictions_app_Inr)
  have 2: "snd (compute_predictions_st hs) =
     Inr (map (\<lambda>(c, h). projection_of (time (last (sort_values h))) c (sort_values h))
              (filter enough_samples hs))"
    by (simp add: compute_predictions_st_eq)
  have 3: "projected_gain (projection_of now c h) =
     (0.5 * window_return now h 1 * (30 / 1) + 0.3 * window_return now h 5 * (30 / 5)
        + 0.2 * window_return now h 15 * (30 / 15)) * 100"
    by (simp add: projection_of_def gain_of_def Let_def)
  note 4 = example_app [of t0 k] and 5 = example_st [of k t0]
  from 1 2 3 w1 w5 w15 4 5 show ?thesis by blast
qed

theorem projected_gain_formula_witness:
  "snd (compute_predictions_app 120000000
          [(''bitcoin'', [\<lparr>time = 0, price = 100\<rparr>, \<lparr>time = 120000000, price = 105\<rparr>])])
     = Inr [\<lparr>coin = ''bitcoin'', projected_gain = 75, confidence = 1\<rparr>] \<and>
   [\<lparr>coin = ''bitcoin'', projected_gain = 75, confidence = 1\<rparr>]
     = map (\<lambda>(c, h). projection_of 120000000 c h)
         (filter enough_samples
            [(''bitcoin'', [\<lparr>time = 0, price = 100\<rparr>, \<lparr>time = 120000000, price = 105\<rparr>])])"
proof -
  let ?HS = "[(''bitcoin'', [\<lparr>time = 0, price = 100\<rparr>, \<lparr>time = 120000000, price = 105\<rparr>])]"
  let ?R = "[\<lparr>coin = ''bitcoin'', projected_gain = 75, confidence = 1\<rparr>]"
  note t = projected_gain_formula [of 120000000 ?HS "''bitcoin''" "[]" 0 "''bitcoin''"]
  from t have "snd (compute_predictions_app (0 + 120000000)
      [(''bitcoin'', [\<lparr>time = 0, price = 100\<rparr>, \<lparr>time = 0 + 120000000, price = 105\<rparr>])]) = Inr ?R"
    by blast
  then have a: "snd (compute_predictions_app 120000000 ?HS) = Inr ?R" by (simp only: add_0)
  from t have "\<forall>results. snd (compute_predictions_app 120000000 ?HS) = Inr results \<longrightarrow>
       results = map (\<lambda>(c, h). projection_of 120000000 c h) (filter enough_samples ?HS)"
    by blast
  with a have "?R = map (\<lambda>(c, h). projection_of 120000000 c h) (filter enough_samples ?HS)"
    by blast
  with a show ?thesis by blast
qed

lemma coin_projection_of: "coin (projection_of now c h) = c"
  by (simp add: projection_of_def Let_def)

lemma short_history_not_projected:
  assumes "distinct (map fst hs)" and "(k, h) \<in> set hs" and "length h < 2"
  shows "k \<notin> coin ` set (map (\<lambda>(c, h). projection_of (f c h) c (g h)) (filter enough_samples hs))"
proof
  assume "k \<in> coin ` set (map (\<lambda>(c, h). projection_of (f c h) c (g h)) (filter enough_samples hs))"
  then obtain c h' where m: "(c, h') \<in> set hs" and e: "enough_samples (c, h')"
    and k: "k = coin (projection_of (f c h') c (g h'))"
    by auto
  from k have "k = c" by (simp add: coin_projection_of)
  with m assms(1,2) have "h' = h" by (meson eq_key_imp_eq_value)
  with e assms(3) show False by (simp add: enough_samples_def)
qed

text \<open>
  C6. A coin whose history has fewer than two entries has no entry in what
  \<^verbatim>\<open>compute_predictions\<close> returns, in either program (the keys of the dict are
  distinct).
\<close>

theorem short_histories_omitted:
  "distinct (map fst hs) \<Longrightarrow> (k, h) \<in> set hs \<Longrightarrow> length h < 2 \<Longrightarrow>
   (\<forall>results. snd (compute_predictions_app now hs) = Inr results \<longrightarrow> k \<notin> coin ` set results) \<and>
   (\<exists>results. snd (compute_predictions_st hs) = Inr results \<and> k \<notin> coin ` set results)"
proof (intro conjI allI impI)
  fix results
  assume a: "distinct (map fst hs)" "(k, h) \<in> set hs" "length h < 2"
    and r: "snd (compute_predictions_app now hs) = Inr results"
  from r have "results = map (\<lambda>(c, h). projection_of now c h) (filter enough_samples hs)"
    by (rule compute_predictions_app_Inr)
  with short_history_not_projected [OF a, of "\<lambda>c h. now" "\<lambda>h. h"]
  show "k \<notin> coin ` set results" by simp
next
  assume a: "distinct (map fst hs)" "(k, h) \<in> set hs" "length h < 2"
  from short_history_not_projected [OF a, of "\<lambda>c h. time (last (sort_values h))" sort_values]
  show "\<exists>results. snd (compute_predictions_st hs) = Inr results \<and> k \<notin> coin ` set results"
    by (simp add: compute_predictions_st_eq)
qed

theorem short_histories_omitted_witness:
  "distinct (map fst [(''bitcoin'', [\<lparr>time = 0, price = 9\<rparr>]),
                      (''ethereum'', [\<lparr>time = 0, price = 100\<rparr>, \<lparr>time = 120000000, price = 105\<rparr>])]) \<and>
   (''bitcoin'', [\<lparr>time = 0, price = 9\<rparr>])
      \<in> set [(''bitcoin'', [\<lparr>time = 0, price = 9\<rparr>]),
              (''ethereum'', [\<lparr>time = 0, price = 100\<rparr>, \<lparr>time = 120000000, price = 105\<rparr>])] \<and>
   length [\<lparr>time = 0, price = 9\<rparr>] < 2 \<and>
   snd (compute_predictions_app 120000000
          [(''bitcoin'', [\<lparr>time = 0, price = 9\<rparr>]),
           (''ethereum'', [\<lparr>time = 0, price = 100\<rparr>, \<lparr>time = 120000000, price = 105\<rparr>])])
     = Inr [\<lparr>coin = ''ethereum'', projected_gain = 75, confidence = 1\<rparr>] \<and>
   ''bitcoin'' \<notin> coin ` set [\<lparr>coin = ''ethereum'', projected_gain = 75, confidence = 1\<rparr>] \<and>
   (\<exists>results. snd (compute_predictions_st
          [(''bitcoin'', [\<lparr>time = 0, price = 9\<rparr>]),
           (''ethereum'', [\<lparr>time = 0, price = 100\<rparr>, \<lparr>time = 120000000, price = 105\<rparr>])])
        = Inr results \<and> ''bitcoin'' \<notin> coin ` set results)"
proof -
  let ?E = "[\<lparr>time = 0, price = 100\<rparr>, \<lparr>time = 120000000, price = 105\<rparr>]"
  let ?HS = "[(''bitcoin'', [\<lparr>time = 0, price = 9\<rparr>]), (''ethereum'', ?E)]"
  let ?R = "[\<lparr>coin = ''ethereum'', projected_gain = 75, confidence = 1\<rparr>]"
  have d: "distinct (map fst ?HS)" by simp
  have m: "(''bitcoin'', [\<lparr>time = 0, price = 9\<rparr>]) \<in> set ?HS" by simp
  have l: "length [\<lparr>time = 0, price = 9\<rparr>] < 2" by simp
  from example_projection [of 0 "''ethereum''"]
  have p: "projection_of 120000000 ''ethereum'' ?E
             = \<lparr>coin = ''ethereum'', projected_gain = 75, confidence = 1\<rparr>"
    by (simp only: add_0)
  have fits: "\<not> DBL_MAX < exp (- fl (75 - 5))"
    by (intro exp_nonpos_fits) (simp add: fl_nonneg)
  have ne: "?E \<noteq> []" by simp
  have pa: "project_app 120000000 ''ethereum'' ?E
             = Inr \<lparr>coin = ''ethereum'', projected_gain = 75, confidence = 1\<rparr>"
    using fits by (simp only: project_app_eq [OF ne] p projection.simps if_False)
  have a: "snd (compute_predictions_app 120000000 ?HS) = Inr ?R"
    by (simp add: compute_predictions_app_def pa)
  note t = short_histories_omitted [OF d m l, of 120000000]
  from t a have b: "''bitcoin'' \<notin> coin ` set ?R" by blast
  from t have c: "\<exists>results. snd (compute_predictions_st ?HS) = Inr results \<and>
      ''bitcoin'' \<notin> coin ` set results" by blast
  from d m l a b c show ?thesis by blast
qed

lemma pct_change_over_app_guard:
  "find (\<lambda>entry. time entry \<le> now - timedelta_minutes w) history = Some old_entry \<Longrightarrow>
   price old_entry \<le> 0 \<Longrightarrow> pct_change_over_app now history current_price w = Inr 0"
  by (simp add: pct_change_over_app_def Let_def)

lemma pct_change_over_app_returns: "\<exists>r. pct_change_over_app now history current_price w = Inr r"
  by (simp add: pct_change_over_app_def Let_def truediv_def split: option.split)

lemma pct_change_over_st_guard:
  "filter (\<lambda>row. time row \<le> time (last df) - timedelta_minutes w) df = oldest # rest \<Longrightarrow>
   price oldest \<le> 0 \<Longrightarrow> pct_change_over_st df current_price w = Inr 0"
proof -
  assume f: "filter (\<lambda>row. time row \<le> time (last df) - timedelta_minutes w) df = oldest # rest"
    and p: "price oldest \<le> 0"
  from f have "df \<noteq> []" by auto
  with f p show ?thesis
    by (simp add: pct_change_over_st_def last_item_def first_item_def Let_def)
qed

lemma pct_change_over_st_returns:
  "df \<noteq> [] \<Longrightarrow> \<exists>r. pct_change_over_st df current_price w = Inr r"
  by (simp add: pct_change_over_st_def last_item_def first_item_def Let_def split: list.split)

lemma compute_predictions_app_raises_only_overflow:
  "snd (compute_predictions_app now hs) = Inl e \<Longrightarrow> e = OverflowError"
  unfolding compute_predictions_app_def by (rule predictions_loop_app_Inl)

lemma compute_predictions_st_returns: "\<exists>results. snd (compute_predictions_st hs) = Inr results"
  by (simp add: compute_predictions_st_eq)

text \<open>
  C7. The guard holds in both programs: an old price that is not positive gives
  the return 0, and no window return divides by zero (the four lemmas on
  \<open>pct_change_over_app\<close> and \<open>pct_change_over_st\<close> above). \<^verbatim>\<open>streamlit_app.py\<close> returns
  for every input (\<open>compute_predictions_st_returns\<close>). \<^verbatim>\<open>app.py\<close> does raise, though
  never ZeroDivisionError (\<open>compute_predictions_app_raises_only_overflow\<close>): when the
  price halves within the 1-minute window the projected gain is \<open>- 750\<close>, and
  \<^verbatim>\<open>math.exp(755.0)\<close> raises OverflowError, where \<^verbatim>\<open>np.exp\<close> in the other program
  returns \<^verbatim>\<open>inf\<close> and the confidence is 0.
\<close>

theorem compute_predictions_app_overflow:
  "snd (compute_predictions_app 120000000
          [(''bitcoin'', [\<lparr>time = 0, price = 100\<rparr>, \<lparr>time = 120000000, price = 50\<rparr>])])
     = Inl OverflowError \<and>
   snd (compute_predictions_st
          [(''bitcoin'', [\<lparr>time = 0, price = 100\<rparr>, \<lparr>time = 120000000, price = 50\<rparr>])])
     = Inr [\<lparr>coin = ''bitcoin'', projected_gain = - 750, confidence = 0\<rparr>]"
proof -
  let ?H = "[\<lparr>time = 0, price = 100\<rparr>, \<lparr>time = 120000000, price = 50\<rparr>]"
  let ?P = "\<lparr>coin = ''bitcoin'', projected_gain = - 750, confidence = 0\<rparr>"
  have "fl (- 750 - 5) = fl (- 755)" by simp
  also have "\<dots> = - 755" by (simp only: fl_minus fl_755)
  finally have f: "fl (- 750 - 5) = - 755" .
  then have over: "DBL_MAX < exp (- fl (- 750 - 5))" using exp_755_overflows by simp
  then have "confidence_st (- 750) = 0" by (rule confidence_st_overflow)
  then have p: "projection_of 120000000 ''bitcoin'' ?H = ?P"
    by (simp add: projection_of_def window_return_def gain_of_def)
  have ne: "?H \<noteq> []" by simp
  have pa: "project_app 120000000 ''bitcoin'' ?H = Inl OverflowError"
    using over by (simp only: project_app_eq [OF ne] p projection.simps if_True)
  have sv: "sort_values ?H = ?H" by (simp add: sort_values_def)
  have l: "last ?H = \<lparr>time = 120000000, price = 50\<rparr>" by simp
  have ps: "project_st ''bitcoin'' ?H = Inr ?P"
    by (simp only: project_st_eq [OF ne] sv l sample.simps p)
  have a: "snd (compute_predictions_app 120000000 [(''bitcoin'', ?H)]) = Inl OverflowError"
    by (simp add: compute_predictions_app_def pa)
  have b: "snd (compute_predictions_st [(''bitcoin'', ?H)]) = Inr [?P]"
    by (simp add: compute_predictions_st_def ps)
  from a b show ?thesis by blast
qed

section \<open>Properties of the heap model\<close>

lemma take_alloc: "n \<le> length h \<Longrightarrow> take n (snd (alloc h ob)) = take n h"
  by (simp add: alloc_def)

lemma length_alloc: "length (snd (alloc h ob)) = Suc (length h)" and fst_alloc: "fst (alloc h ob) = length h"
  by (simp_all add: alloc_def)

lemma take_store: "n \<le> a \<Longrightarrow> take n (store h a ob) = take n h"
  by (simp add: store_def)

lemma length_store: "length (store h a ob) = length h"
  by (simp add: store_def)

lemma append_result_frame:
  "append_result h results r = Inr h' \<Longrightarrow> n \<le> results \<Longrightarrow>
   take n h' = take n h \<and> length h' = length h"
  by (auto simp: append_result_def take_store length_store split: option.splits obj.splits)

lemma heap_loop_app_frame:
  "n \<le> results \<Longrightarrow>
   take n (fst (heap_loop_app now items results h)) = take n h \<and>
   length h \<le> length (fst (heap_loop_app now items results h))"
proof (induction items arbitrary: h)
  case Nil
  then show ?case by simp
next
  case (Cons item items)
  obtain c a where item: "item = (c, a)" by (cases item)
  show ?case
  proof (cases "read_history h a")
    case (Inl e)
    then show ?thesis by (simp add: item)
  next
    case (Inr history)
    show ?thesis
    proof (cases "length history < 2")
      case True
      with Inr Cons show ?thesis by (simp add: item)
    next
      case False
      show ?thesis
      proof (cases "project_app now c history")
        case (Inl e)
        with Inr False show ?thesis by (simp add: item)
      next
        case r: (Inr r)
        show ?thesis
        proof (cases "append_result h results r")
          case (Inl e)
          with Inr False r show ?thesis by (simp add: item)
        next
          case h': (Inr h')
          from append_result_frame [OF h' Cons.prems]
          have "take n h' = take n h" and "length h' = length h" by simp_all
          with Cons.IH [OF Cons.prems, of h'] Inr False r h' show ?thesis
            by (simp add: item)
        qed
      qed
    qed
  qed
qed

lemma compute_predictions_app_heap_frame:
  "take (length h) (fst (compute_predictions_app_heap now d h)) = h"
proof -
  let ?h1 = "h @ [Results []]"
  have L: "take (length h) (fst (heap_loop_app now items (length h) ?h1)) = h" for items
    using heap_loop_app_frame [of "length h" "length h" now items ?h1] by simp
  show ?thesis
  proof (cases "deref ?h1 d")
    case None
    then show ?thesis by (simp add: compute_predictions_app_heap_def alloc_def)
  next
    case (Some ob)
    show ?thesis
    proof (cases ob)
      case (Histories items)
      obtain h2 res where run: "heap_loop_app now items (length h) ?h1 = (h2, res)"
        by (cases "heap_loop_app now items (length h) ?h1")
      from L [of items] run have "take (length h) h2 = h" by simp
      with Some Histories run show ?thesis
        by (simp add: compute_predictions_app_heap_def alloc_def split: sum.splits)
    qed (use Some in \<open>simp_all add: compute_predictions_app_heap_def alloc_def\<close>)
  qed
qed

lemma heap_project_st_frame:
  "n \<le> length h \<Longrightarrow>
   take n (fst (heap_project_st c history h)) = take n h \<and>
   length h \<le> length (fst (heap_project_st c history h))"
  by (auto simp: heap_project_st_def alloc_def sort_frame_def set_time_delta_def deref_def
      store_def nth_append split: option.splits obj.splits sum.splits prod.splits if_splits)

lemma heap_loop_st_frame:
  "n \<le> results \<Longrightarrow> n \<le> length h \<Longrightarrow>
   take n (fst (heap_loop_st items results h)) = take n h \<and>
   length h \<le> length (fst (heap_loop_st items results h))"
proof (induction items arbitrary: h)
  case Nil
  then show ?case by simp
next
  case (Cons item items)
  obtain c a where item: "item = (c, a)" by (cases item)
  show ?case
  proof (cases "read_history h a")
    case (Inl e)
    then show ?thesis by (simp add: item)
  next
    case (Inr history)
    show ?thesis
    proof (cases "length history < 2")
      case True
      with Inr Cons show ?thesis by (simp add: item)
    next
      case False
      obtain h1 res where p: "heap_project_st c history h = (h1, res)"
        by (cases "heap_project_st c history h")
      from heap_project_st_frame [OF Cons.prems(2), of c history] p
      have f1: "take n h1 = take n h" and l1: "length h \<le> length h1" by simp_all
      show ?thesis
      proof (cases res)
        case (Inl e)
        with Inr False p f1 l1 show ?thesis by (simp add: item)
      next
        case r: (Inr r)
        show ?thesis
        proof (cases "append_result h1 results r")
          case (Inl e)
          with Inr False p r f1 l1 show ?thesis by (simp add: item)
        next
          case h2: (Inr h2)
          from append_result_frame [OF h2 Cons.prems(1)]
          have f2: "take n h2 = take n h1" and l2: "length h2 = length h1" by simp_all
          from Cons.prems(2) l1 l2 have "n \<le> length h2" by simp
          from Cons.IH [OF Cons.prems(1) this] Inr False p r h2 f1 f2 l1 l2 show ?thesis
            by (simp add: item)
        qed
      qed
    qed
  qed
qed

lemma compute_predictions_st_heap_frame:
  "take (length h) (fst (compute_predictions_st_heap d h)) = h"
proof -
  let ?h1 = "h @ [Results []]"
  have L: "take (length h) (fst (heap_loop_st items (length h) ?h1)) = h \<and>
           length h \<le> length (fst (heap_loop_st items (length h) ?h1))" for items
    using heap_loop_st_frame [of "length h" "length h" ?h1 items] by simp
  show ?thesis
  proof (cases "deref ?h1 d")
    case None
    then show ?thesis by (simp add: compute_predictions_st_heap_def alloc_def)
  next
    case (Some ob)
    show ?thesis
    proof (cases ob)
      case (Histories items)
      obtain h2 res where run: "heap_loop_st items (length h) ?h1 = (h2, res)"
        by (cases "heap_loop_st items (length h) ?h1")
      from L [of items] run have "take (length h) h2 = h" and "length h \<le> length h2" by simp_all
      with Some Histories run show ?thesis
        by (simp add: compute_predictions_st_heap_def alloc_def
            split: sum.splits option.splits obj.splits)
    qed (use Some in \<open>simp_all add: compute_predictions_st_heap_def alloc_def\<close>)
  qed
qed

lemma extends_length: "take (length h) h' = h \<Longrightarrow> length h \<le> length h'"
proof -
  assume t: "take (length h) h' = h"
  have "length (take (length h) h') = length h" by (simp only: t)
  then show ?thesis by simp
qed

lemma deref_stable: "deref h a = Some ob \<Longrightarrow> take (length h) h' = h \<Longrightarrow> deref h' a = Some ob"
proof -
  assume d: "deref h a = Some ob" and t: "take (length h) h' = h"
  from d have a: "a < length h" and ob: "h ! a = ob" by (simp_all add: deref_def split: if_splits)
  from t have l: "length h \<le> length h'" by (rule extends_length)
  from a have "take (length h) h' ! a = h' ! a" by simp
  with t ob have "h' ! a = ob" by simp
  with a l show ?thesis by (simp add: deref_def)
qed

lemma read_entries_stable:
  "read_entries h as = Inr v \<Longrightarrow> take (length h) h' = h \<Longrightarrow> read_entries h' as = Inr v"
proof (induction as arbitrary: v)
  case Nil
  then show ?case by simp
next
  case (Cons a as)
  from Cons.prems(1) obtain s ss where d: "deref h a = Some (Entry s)"
    and r: "read_entries h as = Inr ss" and v: "v = s # ss"
    by (auto simp: and_then_def split: option.splits obj.splits sum.splits)
  from deref_stable [OF d Cons.prems(2)] Cons.IH [OF r Cons.prems(2)] v
  show ?case by simp
qed

lemma read_history_stable:
  "read_history h a = Inr v \<Longrightarrow> take (length h) h' = h \<Longrightarrow> read_history h' a = Inr v"
proof -
  assume r: "read_history h a = Inr v" and t: "take (length h) h' = h"
  from r obtain as where d: "deref h a = Some (Refs as)" and e: "read_entries h as = Inr v"
    by (auto simp: read_history_def split: option.splits obj.splits)
  from deref_stable [OF d t] read_entries_stable [OF e t] show ?thesis
    by (simp add: read_history_def)
qed

lemma represents_stable:
  "represents h d hs \<Longrightarrow> take (length h) h' = h \<Longrightarrow> represents h' d hs"
proof -
  assume r: "represents h d hs" and t: "take (length h) h' = h"
  from r obtain items where d: "deref h d = Some (Histories items)"
    and l: "list_all2 (\<lambda>item entry. fst item = fst entry \<and> read_history h (snd item) = Inr (snd entry))
              items hs"
    by (auto simp: represents_def split: option.splits obj.splits)
  from l have "list_all2 (\<lambda>item entry. fst item = fst entry \<and> read_history h' (snd item) = Inr (snd entry))
              items hs"
    by (rule list_all2_mono) (auto intro: read_history_stable [OF _ t])
  with deref_stable [OF d t] show ?thesis by (simp add: represents_def)
qed

lemma append_result_eq:
  "deref h results = Some (Results rs) \<Longrightarrow>
   append_result h results r = Inr (store h results (Results (rs @ [r]))) \<and>
   deref (store h results (Results (rs @ [r]))) results = Some (Results (rs @ [r]))"
  by (auto simp: append_result_def deref_def store_def split: if_splits)

lemma heap_loop_app_refines:
  "list_all2 (\<lambda>item entry. fst item = fst entry \<and> read_history h0 (snd item) = Inr (snd entry))
     items hs' \<Longrightarrow>
   take (length h0) h = h0 \<Longrightarrow> length h0 \<le> results \<Longrightarrow>
   deref h results = Some (Results rs) \<Longrightarrow>
   and_then (snd (heap_loop_app now items results h))
     (\<lambda>u. read_results (fst (heap_loop_app now items results h)) results)
   = snd (predictions_loop_app now hs' hs rs)"
proof (induction items hs' arbitrary: h rs rule: list_all2_induct)
  case Nil
  then show ?case by (simp add: read_results_def)
next
  case (Cons item items entry hs')
  obtain c a where item: "item = (c, a)" by (cases item)
  obtain c' history where en: "entry = (c', history)" by (cases entry)
  from Cons.hyps(1) have cc: "c' = c" and rd0: "read_history h0 a = Inr history"
    by (simp_all add: item en)
  have t': "take (length h0) h = h0" by (rule Cons.prems(1))
  from read_history_stable [OF rd0] t' have rd: "read_history h a = Inr history" by simp
  show ?case
  proof (cases "length history < 2")
    case True
    with Cons.IH [OF Cons.prems] rd show ?thesis by (simp add: item en cc)
  next
    case False
    show ?thesis
    proof (cases "project_app now c history")
      case (Inl e)
      with rd False show ?thesis by (simp add: item en cc)
    next
      case r: (Inr r)
      let ?h' = "store h results (Results (rs @ [r]))"
      from append_result_eq [OF Cons.prems(3), of r]
      have ap: "append_result h results r = Inr ?h'"
        and dr: "deref ?h' results = Some (Results (rs @ [r]))" by simp_all
      from Cons.prems(2) have "take (length h0) ?h' = take (length h0) h" by (rule take_store)
      with t' have t2: "take (length h0) ?h' = h0" by simp
      from Cons.IH [OF t2 Cons.prems(2) dr] rd False r ap show ?thesis
        by (simp add: item en cc)
    qed
  qed
qed

lemma project_st_df: "project_st c history = project_df c (sort_values history)"
  by (simp add: project_st_def project_df_def Let_def)

lemma heap_project_st_eq:
  "heap_project_st c history h =
     (h @ [Frame history None,
           Frame (sort_values history) (Some (time_delta (sort_values history)))],
      project_st c history)"
  by (simp add: heap_project_st_def alloc_def sort_frame_def set_time_delta_def deref_def
      store_def nth_append project_st_df list_update_append)

lemma heap_loop_st_refines:
  "list_all2 (\<lambda>item entry. fst item = fst entry \<and> read_history h0 (snd item) = Inr (snd entry))
     items hs' \<Longrightarrow>
   take (length h0) h = h0 \<Longrightarrow> length h0 \<le> results \<Longrightarrow>
   deref h results = Some (Results rs) \<Longrightarrow>
   and_then (snd (heap_loop_st items results h))
     (\<lambda>u. read_results (fst (heap_loop_st items results h)) results)
   = snd (predictions_loop_st hs' hs rs)"
proof (induction items hs' arbitrary: h rs rule: list_all2_induct)
  case Nil
  then show ?case by (simp add: read_results_def)
next
  case (Cons item items entry hs')
  obtain c a where item: "item = (c, a)" by (cases item)
  obtain c' history where en: "entry = (c', history)" by (cases entry)
  from Cons.hyps(1) have cc: "c' = c" and rd0: "read_history h0 a = Inr history"
    by (simp_all add: item en)
  have t': "take (length h0) h = h0" by (rule Cons.prems(1))
  from read_history_stable [OF rd0] t' have rd: "read_history h a = Inr history" by simp
  show ?case
  proof (cases "length history < 2")
    case True
    with Cons.IH [OF Cons.prems] rd show ?thesis by (simp add: item en cc)
  next
    case False
    let ?h1 = "h @ [Frame history None,
                    Frame (sort_values history) (Some (time_delta (sort_values history)))]"
    from t' have l0: "length h0 \<le> length h" by (rule extends_length)
    then have t1: "take (length h0) ?h1 = h0" using t' by simp
    from Cons.prems(3) have d1: "deref ?h1 results = Some (Results rs)"
      by (auto simp: deref_def nth_append split: if_splits)
    show ?thesis
    proof (cases "project_st c history")
      case (Inl e)
      with rd False show ?thesis by (simp add: item en cc heap_project_st_eq)
    next
      case r: (Inr r)
      let ?h2 = "store ?h1 results (Results (rs @ [r]))"
      from append_result_eq [OF d1, of r]
      have ap: "append_result ?h1 results r = Inr ?h2"
        and dr: "deref ?h2 results = Some (Results (rs @ [r]))" by simp_all
      from Cons.prems(2) have "take (length h0) ?h2 = take (length h0) ?h1" by (rule take_store)
      with t1 have t2: "take (length h0) ?h2 = h0" by simp
      from Cons.IH [OF t2 Cons.prems(2) dr] rd False r ap show ?thesis
        by (simp add: item en cc heap_project_st_eq)
    qed
  qed
qed

lemma store_seen: "a < length h \<Longrightarrow> h ! a \<noteq> ob \<Longrightarrow> take (length h) (store h a ob) \<noteq> h"
proof
  assume a: "a < length h" and n: "h ! a \<noteq> ob" and t: "take (length h) (store h a ob) = h"
  from a have "take (length h) (store h a ob) ! a = ob" by (simp add: store_def)
  with t n show False by simp
qed

lemma compute_predictions_app_heap_refines:
  "represents h d hs \<Longrightarrow>
   results_of (compute_predictions_app_heap now d h) = snd (compute_predictions_app now hs)"
proof -
  assume r: "represents h d hs"
  let ?h1 = "h @ [Results []]"
  from r obtain items where d: "deref h d = Some (Histories items)"
    and l: "list_all2 (\<lambda>item entry. fst item = fst entry \<and> read_history h (snd item) = Inr (snd entry))
              items hs"
    by (auto simp: represents_def split: option.splits obj.splits)
  have t: "take (length h) ?h1 = h" by simp
  from deref_stable [OF d t] have d1: "deref ?h1 d = Some (Histories items)" .
  have dr: "deref ?h1 (length h) = Some (Results [])" by (simp add: deref_def)
  obtain h2 res where run: "heap_loop_app now items (length h) ?h1 = (h2, res)"
    by (cases "heap_loop_app now items (length h) ?h1")
  from heap_loop_app_refines [OF l t order_refl dr, of now hs] run
  have "and_then res (\<lambda>u. read_results h2 (length h)) = snd (predictions_loop_app now hs hs [])"
    by simp
  with d1 run show ?thesis
    by (cases res)
      (simp_all add: results_of_def compute_predictions_app_heap_def alloc_def
        compute_predictions_app_def)
qed

lemma compute_predictions_st_heap_refines:
  "represents h d hs \<Longrightarrow>
   results_of (compute_predictions_st_heap d h) = snd (compute_predictions_st hs)"
proof -
  assume r: "represents h d hs"
  let ?h1 = "h @ [Results []]"
  from r obtain items where d: "deref h d = Some (Histories items)"
    and l: "list_all2 (\<lambda>item entry. fst item = fst entry \<and> read_history h (snd item) = Inr (snd entry))
              items hs"
    by (auto simp: represents_def split: option.splits obj.splits)
  have t: "take (length h) ?h1 = h" by simp
  from deref_stable [OF d t] have d1: "deref ?h1 d = Some (Histories items)" .
  have dr: "deref ?h1 (length h) = Some (Results [])" by (simp add: deref_def)
  obtain h2 res where run: "heap_loop_st items (length h) ?h1 = (h2, res)"
    by (cases "heap_loop_st items (length h) ?h1")
  from heap_loop_st_refines [OF l t order_refl dr, of hs] run
  have e: "and_then res (\<lambda>u. read_results h2 (length h)) = snd (predictions_loop_st hs hs [])"
    by simp
  show ?thesis
  proof (cases res)
    case (Inl e')
    with d1 run e show ?thesis
      by (simp add: results_of_def compute_predictions_st_heap_def alloc_def
          compute_predictions_st_def)
  next
    case (Inr u)
    show ?thesis
    proof (cases "\<exists>rs. deref h2 (length h) = Some (Results rs)")
      case True
      then obtain rs where dd: "deref h2 (length h) = Some (Results rs)" by blast
      from e Inr dd have v: "snd (predictions_loop_st hs hs []) = Inr rs"
        by (simp add: read_results_def)
      have "read_results (h2 @ [Results rs]) (length h2) = Inr rs"
        by (simp add: read_results_def deref_def)
      with d1 run Inr dd v show ?thesis
        by (simp add: results_of_def compute_predictions_st_heap_def alloc_def
            compute_predictions_st_def)
    next
      case False
      then have rr: "read_results h2 (length h) = Inl TypeError"
        by (auto simp: read_results_def split: option.splits obj.splits)
      from False d1 run Inr have "compute_predictions_st_heap d h = (h2, Inl TypeError)"
        by (auto simp: compute_predictions_st_heap_def alloc_def split: option.splits obj.splits)
      with e Inr rr show ?thesis
        by (simp add: results_of_def compute_predictions_st_def)
    qed
  qed
qed

text \<open>
  C10. Every object that exists when \<^verbatim>\<open>compute_predictions\<close> is called (the dict,
  each history list, each entry) is there unchanged when the function returns or
  raises, in both programs: the function creates objects (the list of results, the
  frames) and writes to those only, where a write to an object that existed would
  show (\<open>store_seen\<close>). So the dict denotes the same histories after the call; and
  for a heap whose dict denotes \<open>hs\<close>, what the caller finds at the address
  returned is what \<open>compute_predictions_app\<close> and \<open>compute_predictions_st\<close> above
  compute from \<open>hs\<close>.
\<close>

theorem compute_predictions_writes_new_objects_only:
  "take (length h) (fst (compute_predictions_app_heap now d h)) = h \<and>
   take (length h) (fst (compute_predictions_st_heap d h)) = h \<and>
   (represents h d hs \<longrightarrow>
      represents (fst (compute_predictions_app_heap now d h)) d hs \<and>
      represents (fst (compute_predictions_st_heap d h)) d hs \<and>
      results_of (compute_predictions_app_heap now d h) = snd (compute_predictions_app now hs) \<and>
      results_of (compute_predictions_st_heap d h) = snd (compute_predictions_st hs))"
proof (intro conjI impI)
  show a: "take (length h) (fst (compute_predictions_app_heap now d h)) = h"
    by (rule compute_predictions_app_heap_frame)
  show b: "take (length h) (fst (compute_predictions_st_heap d h)) = h"
    by (rule compute_predictions_st_heap_frame)
  assume r: "represents h d hs"
  from r a show "represents (fst (compute_predictions_app_heap now d h)) d hs"
    by (rule represents_stable)
  from r b show "represents (fst (compute_predictions_st_heap d h)) d hs"
    by (rule represents_stable)
  from r show "results_of (compute_predictions_app_heap now d h) = snd (compute_predictions_app now hs)"
    by (rule compute_predictions_app_heap_refines)
  from r show "results_of (compute_predictions_st_heap d h) = snd (compute_predictions_st hs)"
    by (rule compute_predictions_st_heap_refines)
qed

theorem compute_predictions_writes_new_objects_only_witness:
  "represents [Entry \<lparr>time = 0, price = 100\<rparr>, Entry \<lparr>time = 120000000, price = 105\<rparr>,
      Refs [0, 1], Histories [(''bitcoin'', 2)]] 3 [(''bitcoin'', [\<lparr>time = 0, price = 100\<rparr>, \<lparr>time = 120000000, price = 105\<rparr>])] \<and>
   take (length [Entry \<lparr>time = 0, price = 100\<rparr>, Entry \<lparr>time = 120000000, price = 105\<rparr>,
      Refs [0, 1], Histories [(''bitcoin'', 2)]]) (fst (compute_predictions_app_heap 120000000 3 [Entry \<lparr>time = 0, price = 100\<rparr>, Entry \<lparr>time = 120000000, price = 105\<rparr>,
      Refs [0, 1], Histories [(''bitcoin'', 2)]])) = [Entry \<lparr>time = 0, price = 100\<rparr>, Entry \<lparr>time = 120000000, price = 105\<rparr>,
      Refs [0, 1], Histories [(''bitcoin'', 2)]] \<and>
   take (length [Entry \<lparr>time = 0, price = 100\<rparr>, Entry \<lparr>time = 120000000, price = 105\<rparr>,
      Refs [0, 1], Histories [(''bitcoin'', 2)]]) (fst (compute_predictions_st_heap 3 [Entry \<lparr>time = 0, price = 100\<rparr>, Entry \<lparr>time = 120000000, price = 105\<rparr>,
      Refs [0, 1], Histories [(''bitcoin'', 2)]])) = [Entry \<lparr>time = 0, price = 100\<rparr>, Entry \<lparr>time = 120000000, price = 105\<rparr>,
      Refs [0, 1], Histories [(''bitcoin'', 2)]] \<and>
   represents (fst (compute_predictions_app_heap 120000000 3 [Entry \<lparr>time = 0, price = 100\<rparr>, Entry \<lparr>time = 120000000, price = 105\<rparr>,
      Refs [0, 1], Histories [(''bitcoin'', 2)]])) 3 [(''bitcoin'', [\<lparr>time = 0, price = 100\<rparr>, \<lparr>time = 120000000, price = 105\<rparr>])] \<and>
   represents (fst (compute_predictions_st_heap 3 [Entry \<lparr>time = 0, price = 100\<rparr>, Entry \<lparr>time = 120000000, price = 105\<rparr>,
      Refs [0, 1], Histories [(''bitcoin'', 2)]])) 3 [(''bitcoin'', [\<lparr>time = 0, price = 100\<rparr>, \<lparr>time = 120000000, price = 105\<rparr>])] \<and>
   results_of (compute_predictions_app_heap 120000000 3 [Entry \<lparr>time = 0, price = 100\<rparr>, Entry \<lparr>time = 120000000, price = 105\<rparr>,
      Refs [0, 1], Histories [(''bitcoin'', 2)]]) = Inr [\<lparr>coin = ''bitcoin'', projected_gain = 75, confidence = 1\<rparr>] \<and>
   results_of (compute_predictions_st_heap 3 [Entry \<lparr>time = 0, price = 100\<rparr>, Entry \<lparr>time = 120000000, price = 105\<rparr>,
      Refs [0, 1], Histories [(''bitcoin'', 2)]]) = Inr [\<lparr>coin = ''bitcoin'', projected_gain = 75, confidence = 1\<rparr>]"
proof -
  let ?H = "[Entry \<lparr>time = 0, price = 100\<rparr>, Entry \<lparr>time = 120000000, price = 105\<rparr>,
      Refs [0, 1], Histories [(''bitcoin'', 2)]]"
  let ?HS = "[(''bitcoin'', [\<lparr>time = 0, price = 100\<rparr>, \<lparr>time = 120000000, price = 105\<rparr>])]"
  have r: "represents ?H 3 ?HS"
    by (simp add: represents_def deref_def read_history_def)
  from example_app [of 0 "''bitcoin''"]
  have a: "snd (compute_predictions_app 120000000 ?HS) = Inr [\<lparr>coin = ''bitcoin'', projected_gain = 75, confidence = 1\<rparr>]" by (simp only: add_0)
  from example_st [of "''bitcoin''" 0]
  have s: "snd (compute_predictions_st ?HS) = Inr [\<lparr>coin = ''bitcoin'', projected_gain = 75, confidence = 1\<rparr>]" by (simp only: add_0)
  note t = compute_predictions_writes_new_objects_only [of ?H 120000000 3 ?HS]
  from t have 1: "take (length ?H) (fst (compute_predictions_app_heap 120000000 3 ?H)) = ?H"
    and 2: "take (length ?H) (fst (compute_predictions_st_heap 3 ?H)) = ?H" by blast+
  from t r have 3: "represents (fst (compute_predictions_app_heap 120000000 3 ?H)) 3 ?HS"
    and 4: "represents (fst (compute_predictions_st_heap 3 ?H)) 3 ?HS"
    and 5: "results_of (compute_predictions_app_heap 120000000 3 ?H)
              = snd (compute_predictions_app 120000000 ?HS)"
    and 6: "results_of (compute_predictions_st_heap 3 ?H) = snd (compute_predictions_st ?HS)"
    by blast+
  from 5 a have 7: "results_of (compute_predictions_app_heap 120000000 3 ?H) = Inr [\<lparr>coin = ''bitcoin'', projected_gain = 75, confidence = 1\<rparr>]"
    by (simp only:)
  from 6 s have 8: "results_of (compute_predictions_st_heap 3 ?H) = Inr [\<lparr>coin = ''bitcoin'', projected_gain = 75, confidence = 1\<rparr>]"
    by (simp only:)
  from r 1 2 3 4 7 8 show ?thesis by blast
qed

section \<open>Properties of the quote fetcher\<close>

lemma fetch_prices_request_raises: "fetch_prices (Inl e) = Inr []"
  by (simp add: fetch_prices_def try_block_def and_then_def)

lemma fetch_prices_error_status:
  "400 \<le> status_code r \<Longrightarrow> status_code r < 600 \<Longrightarrow> fetch_prices (Inr r) = Inr []"
  by (simp add: fetch_prices_def try_block_def and_then_def raise_for_status_def)

lemma fetch_prices_not_json: "body r = None \<Longrightarrow> fetch_prices (Inr r) = Inr []"
  by (simp add: fetch_prices_def try_block_def and_then_def raise_for_status_def response_json_def)

lemma fetch_prices_partial:
  "fetch_prices (Inr \<lparr>status_code = 200, body = Some (JObj
      [(''bitcoin'', JObj [(''usd'', JNum 5), (''last_updated_at'', JNum 17)]),
       (''ripple'', JObj [(''last_updated_at'', JNum 17)])])\<rparr>)
   = Inr [(''bitcoin'', JNum 5, 17000000)]"
  by (simp add: fetch_prices_def try_block_def and_then_def raise_for_status_def response_json_def
      COINS_def round_half_even_def)

text \<open>
  C5. \<^verbatim>\<open>fetch_prices\<close> returns the empty dict when the request raises, when the
  status is an error and when the body is not JSON (the three lemmas above), and it
  leaves out a coin whose price is missing (\<open>fetch_prices_partial\<close>). It raises,
  though, on a body that is JSON of another shape: AttributeError when the body is
  a list or when the value of a coin is a number, TypeError when the timestamp is
  a string. And a price that is not a number is returned as it is.
\<close>

theorem fetch_prices_raises:
  "fetch_prices (Inr \<lparr>status_code = 200, body = Some (JArr [])\<rparr>) = Inl AttributeError \<and>
   fetch_prices (Inr \<lparr>status_code = 200, body = Some (JObj [(''bitcoin'', JNum 5)])\<rparr>)
     = Inl AttributeError \<and>
   fetch_prices (Inr \<lparr>status_code = 200, body = Some (JObj
      [(''bitcoin'', JObj [(''usd'', JNum 5), (''last_updated_at'', JStr ''x'')])])\<rparr>)
     = Inl TypeError \<and>
   fetch_prices (Inr \<lparr>status_code = 200, body = Some (JObj
      [(''bitcoin'', JObj [(''usd'', JStr ''abc''), (''last_updated_at'', JNum 17)])])\<rparr>)
     = Inr [(''bitcoin'', JStr ''abc'', 17000000)]"
  by (simp add: fetch_prices_def try_block_def and_then_def raise_for_status_def response_json_def
      COINS_def round_half_even_def)

section \<open>Properties of the display name\<close>

lemma str_replace_absent:
  "old \<noteq> [] \<Longrightarrow> \<forall>i. take (length old) (drop i s) \<noteq> old \<Longrightarrow> str_replace old new s = s"
proof (induction s)
  case Nil
  then show ?case by simp
next
  case (Cons ch s)
  from Cons.prems(2) have "take (length old) (drop 0 (ch # s)) \<noteq> old" by blast
  then have h: "take (length old) (ch # s) \<noteq> old" by simp
  have "\<forall>i. take (length old) (drop i s) \<noteq> old"
  proof
    fix i
    from Cons.prems(2) have "take (length old) (drop (Suc i) (ch # s)) \<noteq> old" by blast
    then show "take (length old) (drop i s) \<noteq> old" by simp
  qed
  with Cons.IH Cons.prems(1) have "str_replace old new s = s" by blast
  with h Cons.prems(1) show ?case by simp
qed

lemma format_coin_name_other:
  "\<forall>i. take (length ''binancecoin'') (drop i coin_id) \<noteq> ''binancecoin'' \<Longrightarrow>
   \<forall>i. take (length ''ripple'') (drop i coin_id) \<noteq> ''ripple'' \<Longrightarrow>
   format_coin_name coin_id = title coin_id"
proof -
  assume a: "\<forall>i. take (length ''binancecoin'') (drop i coin_id) \<noteq> ''binancecoin''"
    and b: "\<forall>i. take (length ''ripple'') (drop i coin_id) \<noteq> ''ripple''"
  have "''binancecoin'' \<noteq> []" and "''ripple'' \<noteq> []" by simp_all
  with a b have "str_replace ''binancecoin'' ''Binance Coin'' coin_id = coin_id"
    and "str_replace ''ripple'' ''XRP'' coin_id = coin_id"
    by (blast intro: str_replace_absent)+
  then show ?thesis by (simp only: format_coin_name_def)
qed

text \<open>
  C9. \<^verbatim>\<open>"ripple"\<close> becomes \<^verbatim>\<open>"Xrp"\<close>, not \<^verbatim>\<open>"XRP"\<close>: \<^verbatim>\<open>title()\<close> runs after the
  replacement and lowers the letters after the first. \<^verbatim>\<open>"binancecoin"\<close> becomes
  \<^verbatim>\<open>"Binance Coin"\<close>, and an identifier without the two substrings is title-cased
  as it is (\<open>format_coin_name_other\<close>).
\<close>

theorem format_coin_name_ripple:
  "format_coin_name ''ripple'' = ''Xrp'' \<and> format_coin_name ''ripple'' \<noteq> ''XRP'' \<and>
   format_coin_name ''binancecoin'' = ''Binance Coin'' \<and>
   format_coin_name ''bitcoin'' = ''Bitcoin''"
proof -
  have a: "format_coin_name ''ripple'' = ''Xrp''" by code_simp
  have b: "format_coin_name ''binancecoin'' = ''Binance Coin''" by code_simp
  have c: "format_coin_name ''bitcoin'' = ''Bitcoin''" by code_simp
  have d: "''Xrp'' \<noteq> ''XRP''" by simp
  from a b c d show ?thesis by (simp only: simp_thms)
qed

end
